theory Spec2Isabelle
  imports Complex_Main "HOL-Library.Word"
begin

unbundle bit_operations_syntax

section \<open>Shared data model\<close>

text \<open>
  The five decoders under \<^verbatim>\<open>src/protocols\<close> (Ford, GM, Hyundai, Nissan, Toyota) are
  embedded one function at a time. C integers are words of their width, so that
  shifts, masks and wrap-around are those of the code.
\<close>

subsection \<open>Single-precision arithmetic\<close>

text \<open>
  A value of the C type \<^verbatim>\<open>float\<close> is the real number it denotes, and every \<^verbatim>\<open>float\<close>
  operation rounds its exact result to binary32, to nearest with ties to even. The
  binade of a number is found by searching the exponents from 127 down to -126,
  below which the spacing of the subnormal numbers applies. Infinities and NaN are
  not modelled: the operands of the analysis functions are bytes and constants, far
  from the overflow threshold.
\<close>

definition pow2 :: "int \<Rightarrow> real" where
  "pow2 e = (if 0 \<le> e then 2 ^ nat e else 1 / 2 ^ nat (- e))"

fun binary32_search :: "nat \<Rightarrow> int \<Rightarrow> real \<Rightarrow> int" where
  "binary32_search 0 e a = e"
| "binary32_search (Suc n) e a = (if pow2 e \<le> a then e else binary32_search n (e - 1) a)"

definition binary32_exponent :: "real \<Rightarrow> int" where
  "binary32_exponent x = binary32_search 253 127 \<bar>x\<bar>"

definition round_half_even :: "real \<Rightarrow> int" where
  "round_half_even y =
     (let f = \<lfloor>y\<rfloor>; d = y - of_int f
      in if d < 1 / 2 then f else if 1 / 2 < d then f + 1 else if even f then f else f + 1)"

definition binary32 :: "real \<Rightarrow> real" where
  "binary32 x =
     (let u = pow2 (binary32_exponent x - 23) in of_int (round_half_even (x / u)) * u)"

text \<open>
  The operations the analysis functions use: a literal with suffix \<^verbatim>\<open>f\<close>, the
  conversion of an integer operand, and the product and the difference of two
  \<^verbatim>\<open>float\<close> values.
\<close>

definition float_lit :: "real \<Rightarrow> real" where
  "float_lit c = binary32 c"

definition float_of_nat :: "nat \<Rightarrow> real" where
  "float_of_nat n = binary32 (real n)"

definition float_mul :: "real \<Rightarrow> real \<Rightarrow> real" where
  "float_mul a b = binary32 (a * b)"

definition float_sub :: "real \<Rightarrow> real \<Rightarrow> real" where
  "float_sub a b = binary32 (a - b)"

subsection \<open>Structures of the firmware\<close>

text \<open>
  Modelled from the spec: the struct \<^verbatim>\<open>SubGhzBlockConst\<close> is declared in the firmware
  header \<^verbatim>\<open>lib/subghz/blocks/const.h\<close>, which is not among the sources. The sources
  initialise its four members by name. The three timing members only occur in
  comparisons against 32-bit durations and are kept at that width.
\<close>

record SubGhzBlockConst =
  te_short :: "32 word"
  te_long :: "32 word"
  te_delta :: "32 word"
  min_count_bit_for_found :: "16 word"

text \<open>
  Modelled from the spec: the struct \<^verbatim>\<open>SubGhzBlockDecoder\<close> (firmware header
  \<^verbatim>\<open>lib/subghz/blocks/decoder.h\<close>) holds the framing step and the bit accumulator,
  ``an unsigned integer plus a count'' (spec section 3). The accumulator is 64 bits
  wide (the decoders read bits 56 to 63 of it), the count is an unsigned 16-bit
  value. The step is kept as the enum of each protocol.
\<close>

record 'step SubGhzBlockDecoder =
  parser_step :: 'step
  decode_data :: "64 word"
  decode_count_bit :: "16 word"

text \<open>
  Modelled from the spec: \<^verbatim>\<open>subghz_protocol_blocks_add_bit\<close> (firmware) ``appends
  bit as the new least-significant bit of a rolling integer accumulator and
  increments a count'' (spec section 4.1).
\<close>

definition subghz_protocol_blocks_add_bit ::
  "'step SubGhzBlockDecoder \<Rightarrow> bool \<Rightarrow> 'step SubGhzBlockDecoder" where
  "subghz_protocol_blocks_add_bit dec bit_value =
     dec\<lparr>decode_data := push_bit 1 (decode_data dec) OR of_bool bit_value,
         decode_count_bit := decode_count_bit dec + 1\<rparr>"

text \<open>
  Modelled from the spec: the macro \<^verbatim>\<open>DURATION_DIFF\<close> (firmware) is the distance
  between a duration and a nominal duration; section 4.4 of the spec describes the
  test \<^verbatim>\<open>DURATION_DIFF(duration, te_short) < te_delta\<close> as the duration lying within
  \<^verbatim>\<open>te_delta\<close> of \<^verbatim>\<open>te_short\<close>.
\<close>

definition DURATION_DIFF :: "32 word \<Rightarrow> 32 word \<Rightarrow> 32 word" where
  "DURATION_DIFF x y = (if x < y then y - x else x - y)"

text \<open>
  Modelled from the spec: the generic reading \<^verbatim>\<open>TPMSBlockGeneric\<close> is declared in
  \<^verbatim>\<open>tpms_generic.h\<close>, which is not among the sources. Its members are those the
  analysis functions assign (spec section 3, ``Decoded reading''). The members
  \<^verbatim>\<open>id\<close> and \<^verbatim>\<open>data\<close> carry a suffix here. The bit count is a natural number: the
  values stored (64, 72, 80) fit every width the member may have. The pressure and
  the temperature are \<^verbatim>\<open>float\<close> members.
\<close>

record TPMSBlockGeneric =
  protocol_name :: string
  id_tpms :: "32 word"
  data_tpms :: "64 word"
  data_count_bit :: nat
  battery_low :: "8 word"
  pressure :: real
  temperature :: real

text \<open>
  The base of a decoder holds the result callback, a function pointer that may be
  null. The model keeps whether a callback is registered, and records the effect of
  each invocation: the reading that the callback finds in the decoder at that
  moment is appended to \<open>callback_log\<close>.
\<close>

record SubGhzProtocolDecoderBase =
  callback :: bool
  callback_log :: "TPMSBlockGeneric list"

text \<open>The three members every decoder struct begins with.\<close>

record 'step TPMSProtocolDecoder =
  base :: SubGhzProtocolDecoderBase
  decoder :: "'step SubGhzBlockDecoder"
  generic :: TPMSBlockGeneric

text \<open>
  \<^verbatim>\<open>if(instance->base.callback) instance->base.callback(&instance->base, ...)\<close>
\<close>

definition invoke_callback ::
  "('step, 'more) TPMSProtocolDecoder_scheme \<Rightarrow> ('step, 'more) TPMSProtocolDecoder_scheme" where
  "invoke_callback instance =
     (if callback (base instance)
      then instance\<lparr>base := (base instance)\<lparr>callback_log :=
             callback_log (base instance) @ [generic instance]\<rparr>\<rparr>
      else instance)"

text \<open>
  Modelled from the spec: the Manchester recoverer \<^verbatim>\<open>manchester_advance\<close> and its two
  enums belong to the firmware (\<^verbatim>\<open>lib/toolbox/manchester_decoder.h\<close>). The decoders
  name one state and two events. The function itself is a parameter of every
  decoder that calls it: it maps a state and an event to the returned flag, the
  next state and the recovered bit.
\<close>

datatype ManchesterState =
  ManchesterStateStart1 | ManchesterStateMid1 | ManchesterStateMid0 | ManchesterStateStart0

datatype ManchesterEvent =
  ManchesterEventShortLow | ManchesterEventShortHigh
| ManchesterEventLongLow | ManchesterEventLongHigh | ManchesterEventReset

type_synonym manchester_advance_fn =
  "ManchesterState \<Rightarrow> ManchesterEvent \<Rightarrow> bool \<times> ManchesterState \<times> bool"

text \<open>The decoders whose buffer is called \<^verbatim>\<open>manchester_data\<close>.\<close>

record 'step TPMSProtocolDecoderBuffered = "'step TPMSProtocolDecoder" +
  manchester_data :: "8 word list"

record 'step TPMSProtocolDecoderManchester = "'step TPMSProtocolDecoderBuffered" +
  manchester_state :: ManchesterState

text \<open>Packing of bytes into the wider members of the reading.\<close>

definition be32 :: "8 word \<Rightarrow> 8 word \<Rightarrow> 8 word \<Rightarrow> 8 word \<Rightarrow> 32 word" where
  "be32 b0 b1 b2 b3 =
     push_bit 24 (ucast b0) OR push_bit 16 (ucast b1) OR push_bit 8 (ucast b2) OR ucast b3"

text \<open>
  Each feed function is a \<^verbatim>\<open>switch\<close> over the framing step. The embedding gives
  every \<^verbatim>\<open>case\<close> block a definition of its own, and one more to the block that
  handles a complete frame; the feed function dispatches on the step as the
  \<^verbatim>\<open>switch\<close> does.
\<close>

section \<open>CRC-8\<close>

text \<open>
  The three static functions \<^verbatim>\<open>gm_crc8\<close>, \<^verbatim>\<open>hyundai_crc8\<close> and \<^verbatim>\<open>nissan_crc8\<close> are the
  same two nested loops and differ in the polynomial only. The inner loop shifts
  the register eight times, most significant bit first.
\<close>

definition crc8_shift :: "8 word \<Rightarrow> 8 word \<Rightarrow> 8 word" where
  "crc8_shift polynomial crc =
     fold (\<lambda>bit_index crc.
             if crc AND 0x80 \<noteq> 0 then push_bit 1 crc XOR polynomial else push_bit 1 crc)
       [0..<8] crc"

definition crc8_loop :: "8 word \<Rightarrow> 8 word \<Rightarrow> 8 word list \<Rightarrow> nat \<Rightarrow> 8 word" where
  "crc8_loop polynomial init data len =
     fold (\<lambda>i crc. crc8_shift polynomial (crc XOR data ! i)) [0..<len] init"

definition gm_crc8 :: "8 word list \<Rightarrow> nat \<Rightarrow> 8 word" where
  "gm_crc8 data len = crc8_loop 0x31 0x00 data len"

definition hyundai_crc8 :: "8 word list \<Rightarrow> nat \<Rightarrow> 8 word" where
  "hyundai_crc8 data len = crc8_loop 0x31 0x00 data len"

definition nissan_crc8 :: "8 word list \<Rightarrow> nat \<Rightarrow> 8 word" where
  "nissan_crc8 data len = crc8_loop 0x07 0x00 data len"

text \<open>
  Modelled from the spec: \<^verbatim>\<open>subghz_protocol_blocks_crc8\<close> belongs to the firmware
  (\<^verbatim>\<open>lib/subghz/blocks/math.h\<close>). The Toyota decoder calls it with polynomial
  \<^verbatim>\<open>0x07\<close> and initial value \<^verbatim>\<open>0x80\<close>; the spec describes a ``CRC-8 poly 0x07 init
  0x80'' over the first eight bytes, that is the loop of the three static functions
  started from the initial value.
\<close>

definition subghz_protocol_blocks_crc8 ::
  "8 word list \<Rightarrow> nat \<Rightarrow> 8 word \<Rightarrow> 8 word \<Rightarrow> 8 word" where
  "subghz_protocol_blocks_crc8 message size_bytes polynomial init =
     crc8_loop polynomial init message size_bytes"

text \<open>
  The loop \<^verbatim>\<open>for(i = 0; i < n; i++) instance->data |= (uint64_t)data[i] << ((m-i) * 8)\<close>
  of the GM and Nissan analysis functions, with \<open>m = 8\<close>. For \<open>i = 0\<close> the shift is by
  64 bits, which C leaves undefined; \<^const>\<open>push_bit\<close> yields 0 there.
\<close>

definition pack_bytes :: "nat \<Rightarrow> nat \<Rightarrow> 8 word list \<Rightarrow> 64 word" where
  "pack_bytes n m data =
     fold (\<lambda>i acc. acc OR push_bit ((m - i) * 8) (ucast (data ! i))) [0..<n] 0"

section \<open>Ford\<close>

definition tpms_protocol_ford_const :: SubGhzBlockConst where
  "tpms_protocol_ford_const =
     \<lparr>te_short = 52, te_long = 52, te_delta = 15, min_count_bit_for_found = 64\<rparr>"

datatype FordDecoderStep = FordDecoderStepReset | FordDecoderStepSync | FordDecoderStepData

type_synonym TPMSProtocolDecoderFord = "FordDecoderStep TPMSProtocolDecoderManchester"

definition tpms_protocol_decoder_ford_reset ::
  "TPMSProtocolDecoderFord \<Rightarrow> TPMSProtocolDecoderFord" where
  "tpms_protocol_decoder_ford_reset instance =
     instance\<lparr>decoder := (decoder instance)\<lparr>parser_step := FordDecoderStepReset\<rparr>,
              manchester_state := ManchesterStateStart1\<rparr>"

definition tpms_protocol_ford_check_checksum :: "8 word list \<Rightarrow> bool" where
  "tpms_protocol_ford_check_checksum data =
     (let checksum = fold (\<lambda>i checksum. checksum + data ! i) [0..<7] (0 :: 8 word)
      in (checksum AND 0xff) = data ! 7)"

definition tpms_protocol_ford_analyze ::
  "TPMSBlockGeneric \<Rightarrow> 8 word list \<Rightarrow> TPMSBlockGeneric" where
  "tpms_protocol_ford_analyze instance data =
     (let i1 = instance\<lparr>id_tpms := be32 (data ! 0) (data ! 1) (data ! 2) (data ! 3)\<rparr>;
          pressure_raw0 = (ucast (data ! 4) :: 16 word);
          pressure_raw = (if data ! 6 AND 0x20 \<noteq> 0 then pressure_raw0 OR 0x100
                          else pressure_raw0);
          pressure_psi = float_mul (float_of_nat (unat pressure_raw)) (float_lit 0.25);
          i2 = i1\<lparr>pressure := float_mul pressure_psi (float_lit 0.0689476)\<rparr>;
          temperature_valid = \<not> (data ! 5 AND 0x80 \<noteq> 0);
          i3 = (if temperature_valid
                then i2\<lparr>temperature :=
                       float_sub (float_of_nat (unat (data ! 5 AND 0x7f))) (float_lit 56)\<rparr>
                else i2\<lparr>temperature := - float_lit 1000\<rparr>);
          flags = data ! 6;
          i4 = i3\<lparr>battery_low := flags\<rparr>
      in i4\<lparr>data_tpms :=
              push_bit 56 (ucast (data ! 0)) OR push_bit 48 (ucast (data ! 1)) OR
              push_bit 40 (ucast (data ! 2)) OR push_bit 32 (ucast (data ! 3)) OR
              push_bit 24 (ucast (data ! 4)) OR push_bit 16 (ucast (data ! 5)) OR
              push_bit 8 (ucast (data ! 6)) OR ucast (data ! 7),
            data_count_bit := 64\<rparr>)"

text \<open>The byte loop of the data case.\<close>

definition ford_pack_bytes :: "64 word \<Rightarrow> 8 word list \<Rightarrow> 8 word list" where
  "ford_pack_bytes acc buf =
     fold (\<lambda>i buf. buf[i := ucast (drop_bit ((7 - i) * 8) acc AND 0xFF)]) [0..<8] buf"

text \<open>
  The block of the data case that is entered once \<^verbatim>\<open>decode_count_bit\<close> has reached
  \<^verbatim>\<open>min_count_bit_for_found\<close>: the bytes are assembled and validated; on success
  they are analysed and the callback is invoked; the decoder returns to the reset
  step.
\<close>

definition ford_frame_found :: "TPMSProtocolDecoderFord \<Rightarrow> TPMSProtocolDecoderFord" where
  "ford_frame_found instance =
     (let i1 = instance\<lparr>manchester_data :=
                 ford_pack_bytes (decode_data (decoder instance)) (manchester_data instance)\<rparr>;
          i2 = (if tpms_protocol_ford_check_checksum (manchester_data i1)
                then invoke_callback
                       (i1\<lparr>generic := tpms_protocol_ford_analyze (generic i1)
                                        (manchester_data i1)\<rparr>)
                else i1)
      in i2\<lparr>decoder := (decoder i2)\<lparr>parser_step := FordDecoderStepReset\<rparr>\<rparr>)"

text \<open>\<^verbatim>\<open>case FordDecoderStepReset:\<close>\<close>

definition ford_feed_reset ::
  "TPMSProtocolDecoderFord \<Rightarrow> bool \<Rightarrow> 32 word \<Rightarrow> TPMSProtocolDecoderFord" where
  "ford_feed_reset instance level duration =
     (if level \<and> DURATION_DIFF duration (te_short tpms_protocol_ford_const)
                   < te_delta tpms_protocol_ford_const
      then instance\<lparr>decoder := \<lparr>parser_step = FordDecoderStepSync, decode_data = 0,
                                 decode_count_bit = 0\<rparr>,
                    manchester_state := ManchesterStateStart1\<rparr>
      else instance)"

text \<open>\<^verbatim>\<open>case FordDecoderStepSync:\<close>\<close>

definition ford_feed_sync ::
  "TPMSProtocolDecoderFord \<Rightarrow> bool \<Rightarrow> 32 word \<Rightarrow> TPMSProtocolDecoderFord" where
  "ford_feed_sync instance level duration =
     (if DURATION_DIFF duration (te_short tpms_protocol_ford_const)
           < te_delta tpms_protocol_ford_const
      then
        let i1 = instance\<lparr>decoder := subghz_protocol_blocks_add_bit (decoder instance) level\<rparr>
        in if decode_count_bit (decoder i1) \<ge> 16
           then
             let sync_check =
                   (ucast (drop_bit (unat (decode_count_bit (decoder i1)) - 16)
                             (decode_data (decoder i1)) AND 0xFFFF) :: 16 word);
                 i2 = (if sync_check = 0xaaa9
                       then i1\<lparr>decoder := \<lparr>parser_step = FordDecoderStepData, decode_data = 0,
                                             decode_count_bit = 0\<rparr>,
                               manchester_data := replicate 8 0,
                               manchester_state := ManchesterStateStart1\<rparr>
                       else i1)
             in if decode_count_bit (decoder i2) > 32
                then i2\<lparr>decoder := (decoder i2)\<lparr>parser_step := FordDecoderStepReset\<rparr>\<rparr>
                else i2
           else i1
      else instance\<lparr>decoder := (decoder instance)\<lparr>parser_step := FordDecoderStepReset\<rparr>\<rparr>)"

text \<open>\<^verbatim>\<open>case FordDecoderStepData:\<close>\<close>

definition ford_feed_data ::
  "manchester_advance_fn \<Rightarrow> TPMSProtocolDecoderFord \<Rightarrow> bool \<Rightarrow> 32 word
     \<Rightarrow> TPMSProtocolDecoderFord" where
  "ford_feed_data manchester_advance instance level duration =
     (if DURATION_DIFF duration (te_short tpms_protocol_ford_const)
           < te_delta tpms_protocol_ford_const
      then
        let event = (if level then ManchesterEventShortHigh else ManchesterEventShortLow);
            advanced = manchester_advance (manchester_state instance) event;
            i1 = instance\<lparr>manchester_state := fst (snd advanced)\<rparr>
        in if fst advanced
           then
             let i2 = i1\<lparr>decoder :=
                        subghz_protocol_blocks_add_bit (decoder i1) (snd (snd advanced))\<rparr>
             in if decode_count_bit (decoder i2)
                     \<ge> min_count_bit_for_found tpms_protocol_ford_const
                then ford_frame_found i2
                else i2
           else i1
      else instance\<lparr>decoder := (decoder instance)\<lparr>parser_step := FordDecoderStepReset\<rparr>\<rparr>)"

definition tpms_protocol_decoder_ford_feed ::
  "manchester_advance_fn \<Rightarrow> TPMSProtocolDecoderFord \<Rightarrow> bool \<Rightarrow> 32 word
     \<Rightarrow> TPMSProtocolDecoderFord" where
  "tpms_protocol_decoder_ford_feed manchester_advance instance level duration =
     (case parser_step (decoder instance) of
        FordDecoderStepReset \<Rightarrow> ford_feed_reset instance level duration
      | FordDecoderStepSync \<Rightarrow> ford_feed_sync instance level duration
      | FordDecoderStepData \<Rightarrow> ford_feed_data manchester_advance instance level duration)"

section \<open>GM\<close>

definition tpms_protocol_gm_const :: SubGhzBlockConst where
  "tpms_protocol_gm_const =
     \<lparr>te_short = 100, te_long = 100, te_delta = 20, min_count_bit_for_found = 72\<rparr>"

datatype GMDecoderStep =
  GMDecoderStepReset | GMDecoderStepPreamble | GMDecoderStepSync | GMDecoderStepData

type_synonym TPMSProtocolDecoderGM = "GMDecoderStep TPMSProtocolDecoderManchester"

definition tpms_protocol_decoder_gm_reset ::
  "TPMSProtocolDecoderGM \<Rightarrow> TPMSProtocolDecoderGM" where
  "tpms_protocol_decoder_gm_reset instance =
     instance\<lparr>decoder := (decoder instance)\<lparr>parser_step := GMDecoderStepReset\<rparr>,
              manchester_state := ManchesterStateStart1\<rparr>"

definition tpms_protocol_gm_check_crc :: "8 word list \<Rightarrow> bool" where
  "tpms_protocol_gm_check_crc data = (let calc_crc = gm_crc8 data 8 in calc_crc = data ! 8)"

definition tpms_protocol_gm_analyze ::
  "TPMSBlockGeneric \<Rightarrow> 8 word list \<Rightarrow> TPMSBlockGeneric" where
  "tpms_protocol_gm_analyze instance data =
     (let i1 = instance\<lparr>id_tpms := be32 (data ! 2) (data ! 3) (data ! 4) (data ! 5)\<rparr>;
          status = data ! 6;
          pressure_raw = data ! 7;
          pressure_kpa = float_sub (float_of_nat (unat pressure_raw)) (float_lit 50);
          i2 = i1\<lparr>pressure := float_mul pressure_kpa (float_lit 0.01)\<rparr>;
          temp_raw = data ! 8;
          i3 = i2\<lparr>temperature := float_sub (float_of_nat (unat temp_raw)) (float_lit 40)\<rparr>;
          battery_low_flag = (status AND 0x40 = 0x40);
          i4 = i3\<lparr>battery_low := of_bool battery_low_flag\<rparr>
      in i4\<lparr>data_tpms := pack_bytes 9 8 data, data_count_bit := 72\<rparr>)"

text \<open>The two sync bytes and the byte loop of the data case.\<close>

definition gm_pack_bytes :: "64 word \<Rightarrow> 8 word list \<Rightarrow> 8 word list" where
  "gm_pack_bytes acc buf =
     fold (\<lambda>i buf. buf[i + 2 := ucast (drop_bit ((6 - i) * 8) acc AND 0xFF)]) [0..<7]
       (buf[0 := 0x55, 1 := 0x5D])"

text \<open>
  The block of the data case that is entered once \<^verbatim>\<open>decode_count_bit\<close> has reached
  \<^verbatim>\<open>min_count_bit_for_found\<close>: the bytes are assembled and validated; on success
  they are analysed and the callback is invoked; the decoder returns to the reset
  step.
\<close>

definition gm_frame_found :: "TPMSProtocolDecoderGM \<Rightarrow> TPMSProtocolDecoderGM" where
  "gm_frame_found instance =
     (let i1 = instance\<lparr>manchester_data :=
                 gm_pack_bytes (decode_data (decoder instance)) (manchester_data instance)\<rparr>;
          i2 = (if tpms_protocol_gm_check_crc (manchester_data i1)
                then invoke_callback
                       (i1\<lparr>generic := tpms_protocol_gm_analyze (generic i1)
                                        (manchester_data i1)\<rparr>)
                else i1)
      in i2\<lparr>decoder := (decoder i2)\<lparr>parser_step := GMDecoderStepReset\<rparr>\<rparr>)"

text \<open>\<^verbatim>\<open>case GMDecoderStepReset:\<close>\<close>

definition gm_feed_reset ::
  "TPMSProtocolDecoderGM \<Rightarrow> bool \<Rightarrow> 32 word \<Rightarrow> TPMSProtocolDecoderGM" where
  "gm_feed_reset instance level duration =
     (if level \<and> DURATION_DIFF duration (te_short tpms_protocol_gm_const)
                   < te_delta tpms_protocol_gm_const
      then instance\<lparr>decoder := \<lparr>parser_step = GMDecoderStepPreamble, decode_data = 0,
                                 decode_count_bit = 0\<rparr>,
                    manchester_state := ManchesterStateStart1\<rparr>
      else instance)"

text \<open>\<^verbatim>\<open>case GMDecoderStepPreamble:\<close>\<close>

definition gm_feed_preamble ::
  "TPMSProtocolDecoderGM \<Rightarrow> bool \<Rightarrow> 32 word \<Rightarrow> TPMSProtocolDecoderGM" where
  "gm_feed_preamble instance level duration =
     (if DURATION_DIFF duration (te_short tpms_protocol_gm_const)
           < te_delta tpms_protocol_gm_const
      then
        let i1 = instance\<lparr>decoder := subghz_protocol_blocks_add_bit (decoder instance) level\<rparr>
        in if decode_count_bit (decoder i1) \<ge> 16
           then
             let pattern =
                   (ucast (drop_bit (unat (decode_count_bit (decoder i1)) - 16)
                             (decode_data (decoder i1)) AND 0xFFFF) :: 16 word);
                 i2 = (if pattern = 0x555D
                       then i1\<lparr>decoder := \<lparr>parser_step = GMDecoderStepData, decode_data = 0,
                                             decode_count_bit = 0\<rparr>,
                               manchester_data := replicate 9 0,
                               manchester_state := ManchesterStateStart1\<rparr>
                       else i1)
             in if decode_count_bit (decoder i2) > 32
                then i2\<lparr>decoder := (decoder i2)\<lparr>parser_step := GMDecoderStepReset\<rparr>\<rparr>
                else i2
           else i1
      else instance\<lparr>decoder := (decoder instance)\<lparr>parser_step := GMDecoderStepReset\<rparr>\<rparr>)"

text \<open>\<^verbatim>\<open>case GMDecoderStepData:\<close>\<close>

definition gm_feed_data ::
  "manchester_advance_fn \<Rightarrow> TPMSProtocolDecoderGM \<Rightarrow> bool \<Rightarrow> 32 word
     \<Rightarrow> TPMSProtocolDecoderGM" where
  "gm_feed_data manchester_advance instance level duration =
     (if DURATION_DIFF duration (te_short tpms_protocol_gm_const)
           < te_delta tpms_protocol_gm_const
      then
        let event = (if level then ManchesterEventShortHigh else ManchesterEventShortLow);
            advanced = manchester_advance (manchester_state instance) event;
            i1 = instance\<lparr>manchester_state := fst (snd advanced)\<rparr>
        in if fst advanced
           then
             let i2 = i1\<lparr>decoder :=
                        subghz_protocol_blocks_add_bit (decoder i1) (snd (snd advanced))\<rparr>
             in if decode_count_bit (decoder i2)
                     \<ge> min_count_bit_for_found tpms_protocol_gm_const
                then gm_frame_found i2
                else i2
           else i1
      else instance\<lparr>decoder := (decoder instance)\<lparr>parser_step := GMDecoderStepReset\<rparr>\<rparr>)"

definition tpms_protocol_decoder_gm_feed ::
  "manchester_advance_fn \<Rightarrow> TPMSProtocolDecoderGM \<Rightarrow> bool \<Rightarrow> 32 word
     \<Rightarrow> TPMSProtocolDecoderGM" where
  "tpms_protocol_decoder_gm_feed manchester_advance instance level duration =
     (case parser_step (decoder instance) of
        GMDecoderStepReset \<Rightarrow> gm_feed_reset instance level duration
      | GMDecoderStepPreamble \<Rightarrow> gm_feed_preamble instance level duration
      | GMDecoderStepSync \<Rightarrow> instance
      | GMDecoderStepData \<Rightarrow> gm_feed_data manchester_advance instance level duration)"

section \<open>Hyundai\<close>

definition tpms_protocol_hyundai_const :: SubGhzBlockConst where
  "tpms_protocol_hyundai_const =
     \<lparr>te_short = 50, te_long = 50, te_delta = 15, min_count_bit_for_found = 80\<rparr>"

datatype HyundaiDecoderStep =
  HyundaiDecoderStepReset | HyundaiDecoderStepPreamble | HyundaiDecoderStepData

type_synonym TPMSProtocolDecoderHyundai = "HyundaiDecoderStep TPMSProtocolDecoderManchester"

definition tpms_protocol_decoder_hyundai_reset ::
  "TPMSProtocolDecoderHyundai \<Rightarrow> TPMSProtocolDecoderHyundai" where
  "tpms_protocol_decoder_hyundai_reset instance =
     instance\<lparr>decoder := (decoder instance)\<lparr>parser_step := HyundaiDecoderStepReset\<rparr>,
              manchester_state := ManchesterStateStart1\<rparr>"

definition tpms_protocol_hyundai_check_crc :: "8 word list \<Rightarrow> bool" where
  "tpms_protocol_hyundai_check_crc data =
     (let calc_crc = hyundai_crc8 data 9 in calc_crc = data ! 9)"

definition tpms_protocol_hyundai_analyze ::
  "TPMSBlockGeneric \<Rightarrow> 8 word list \<Rightarrow> TPMSBlockGeneric" where
  "tpms_protocol_hyundai_analyze instance data =
     (let i1 = instance\<lparr>id_tpms := be32 (data ! 3) (data ! 4) (data ! 5) (data ! 6)\<rparr>;
          status = data ! 7;
          pressure_raw = data ! 8;
          pressure_kpa0 = float_sub (float_of_nat (unat pressure_raw)) (float_lit 40);
          pressure_kpa = (if pressure_kpa0 < float_of_nat 0 then float_of_nat 0
                          else pressure_kpa0);
          i2 = i1\<lparr>pressure := float_mul pressure_kpa (float_lit 0.01)\<rparr>;
          temp_raw = data ! 9;
          i3 = i2\<lparr>temperature := float_sub (float_of_nat (unat temp_raw)) (float_lit 50)\<rparr>;
          battery_low_flag = (status AND 0x40 = 0x40);
          i4 = i3\<lparr>battery_low := of_bool battery_low_flag\<rparr>
      in i4\<lparr>data_tpms :=
              fold (\<lambda>i acc. if i < 8 then acc OR push_bit ((7 - i) * 8) (ucast (data ! i))
                              else acc) [0..<10] 0,
            data_count_bit := 80\<rparr>)"

text \<open>The three sync bytes and the byte loop of the data case.\<close>

definition hyundai_pack_bytes :: "64 word \<Rightarrow> 8 word list \<Rightarrow> 8 word list" where
  "hyundai_pack_bytes acc buf =
     fold (\<lambda>i buf. buf[i + 3 := ucast (drop_bit ((6 - i) * 8) acc AND 0xFF)]) [0..<7]
       (buf[0 := 0x55, 1 := 0x55, 2 := 0x56])"

text \<open>
  The block of the data case that is entered once \<^verbatim>\<open>decode_count_bit\<close> has reached
  \<^verbatim>\<open>min_count_bit_for_found\<close>: the bytes are assembled and validated; on success
  they are analysed and the callback is invoked; the decoder returns to the reset
  step.
\<close>

definition hyundai_frame_found :: "TPMSProtocolDecoderHyundai \<Rightarrow> TPMSProtocolDecoderHyundai" where
  "hyundai_frame_found instance =
     (let i1 = instance\<lparr>manchester_data :=
                 hyundai_pack_bytes (decode_data (decoder instance)) (manchester_data instance)\<rparr>;
          i2 = (if tpms_protocol_hyundai_check_crc (manchester_data i1)
                then invoke_callback
                       (i1\<lparr>generic := tpms_protocol_hyundai_analyze (generic i1)
                                        (manchester_data i1)\<rparr>)
                else i1)
      in i2\<lparr>decoder := (decoder i2)\<lparr>parser_step := HyundaiDecoderStepReset\<rparr>\<rparr>)"

text \<open>\<^verbatim>\<open>case HyundaiDecoderStepReset:\<close>\<close>

definition hyundai_feed_reset ::
  "TPMSProtocolDecoderHyundai \<Rightarrow> bool \<Rightarrow> 32 word \<Rightarrow> TPMSProtocolDecoderHyundai" where
  "hyundai_feed_reset instance level duration =
     (if level \<and> DURATION_DIFF duration (te_short tpms_protocol_hyundai_const)
                   < te_delta tpms_protocol_hyundai_const
      then instance\<lparr>decoder := \<lparr>parser_step = HyundaiDecoderStepPreamble, decode_data = 0,
                                 decode_count_bit = 0\<rparr>,
                    manchester_state := ManchesterStateStart1\<rparr>
      else instance)"

text \<open>\<^verbatim>\<open>case HyundaiDecoderStepPreamble:\<close>\<close>

definition hyundai_feed_preamble ::
  "TPMSProtocolDecoderHyundai \<Rightarrow> bool \<Rightarrow> 32 word \<Rightarrow> TPMSProtocolDecoderHyundai" where
  "hyundai_feed_preamble instance level duration =
     (if DURATION_DIFF duration (te_short tpms_protocol_hyundai_const)
           < te_delta tpms_protocol_hyundai_const
      then
        let i1 = instance\<lparr>decoder := subghz_protocol_blocks_add_bit (decoder instance) level\<rparr>
        in if decode_count_bit (decoder i1) \<ge> 28
           then
             let pattern =
                   (ucast (decode_data (decoder i1) AND 0x0FFFFFFF) :: 32 word);
                 i2 = (if pattern = 0x5555556
                       then i1\<lparr>decoder := \<lparr>parser_step = HyundaiDecoderStepData, decode_data = 0,
                                             decode_count_bit = 0\<rparr>,
                               manchester_data := replicate 10 0,
                               manchester_state := ManchesterStateStart1\<rparr>
                       else i1)
             in if decode_count_bit (decoder i2) > 40
                then i2\<lparr>decoder := (decoder i2)\<lparr>parser_step := HyundaiDecoderStepReset\<rparr>\<rparr>
                else i2
           else i1
      else instance\<lparr>decoder := (decoder instance)\<lparr>parser_step := HyundaiDecoderStepReset\<rparr>\<rparr>)"

text \<open>\<^verbatim>\<open>case HyundaiDecoderStepData:\<close>\<close>

definition hyundai_feed_data ::
  "manchester_advance_fn \<Rightarrow> TPMSProtocolDecoderHyundai \<Rightarrow> bool \<Rightarrow> 32 word
     \<Rightarrow> TPMSProtocolDecoderHyundai" where
  "hyundai_feed_data manchester_advance instance level duration =
     (if DURATION_DIFF duration (te_short tpms_protocol_hyundai_const)
           < te_delta tpms_protocol_hyundai_const
      then
        let event = (if level then ManchesterEventShortHigh else ManchesterEventShortLow);
            advanced = manchester_advance (manchester_state instance) event;
            i1 = instance\<lparr>manchester_state := fst (snd advanced)\<rparr>
        in if fst advanced
           then
             let i2 = i1\<lparr>decoder :=
                        subghz_protocol_blocks_add_bit (decoder i1) (snd (snd advanced))\<rparr>
             in if decode_count_bit (decoder i2)
                     \<ge> min_count_bit_for_found tpms_protocol_hyundai_const
                then hyundai_frame_found i2
                else i2
           else i1
      else instance\<lparr>decoder := (decoder instance)\<lparr>parser_step := HyundaiDecoderStepReset\<rparr>\<rparr>)"

definition tpms_protocol_decoder_hyundai_feed ::
  "manchester_advance_fn \<Rightarrow> TPMSProtocolDecoderHyundai \<Rightarrow> bool \<Rightarrow> 32 word
     \<Rightarrow> TPMSProtocolDecoderHyundai" where
  "tpms_protocol_decoder_hyundai_feed manchester_advance instance level duration =
     (case parser_step (decoder instance) of
        HyundaiDecoderStepReset \<Rightarrow> hyundai_feed_reset instance level duration
      | HyundaiDecoderStepPreamble \<Rightarrow> hyundai_feed_preamble instance level duration
      | HyundaiDecoderStepData \<Rightarrow> hyundai_feed_data manchester_advance instance level duration)"

section \<open>Nissan\<close>

definition NISSAN_SYNC_PATTERN :: "8 word" where
  "NISSAN_SYNC_PATTERN = 0x5A"

definition tpms_protocol_nissan_const :: SubGhzBlockConst where
  "tpms_protocol_nissan_const =
     \<lparr>te_short = 52, te_long = 104, te_delta = 15, min_count_bit_for_found = 72\<rparr>"

datatype NissanDecoderStep =
  NissanDecoderStepReset | NissanDecoderStepPreamble | NissanDecoderStepData

record TPMSProtocolDecoderNissan = "NissanDecoderStep TPMSProtocolDecoder" +
  pwm_data :: "8 word list"
  last_level :: bool
  last_duration :: "32 word"

definition tpms_protocol_decoder_nissan_reset ::
  "TPMSProtocolDecoderNissan \<Rightarrow> TPMSProtocolDecoderNissan" where
  "tpms_protocol_decoder_nissan_reset instance =
     instance\<lparr>decoder := (decoder instance)\<lparr>parser_step := NissanDecoderStepReset\<rparr>,
              last_level := False,
              last_duration := 0\<rparr>"

definition tpms_protocol_nissan_check_crc :: "8 word list \<Rightarrow> bool" where
  "tpms_protocol_nissan_check_crc data =
     (let calc_crc = nissan_crc8 data 8 in calc_crc = data ! 8)"

definition tpms_protocol_nissan_analyze ::
  "TPMSBlockGeneric \<Rightarrow> 8 word list \<Rightarrow> TPMSBlockGeneric" where
  "tpms_protocol_nissan_analyze instance data =
     (let i1 = instance\<lparr>id_tpms := be32 (data ! 1) (data ! 2) (data ! 3) (data ! 4)\<rparr>;
          pressure_raw = (push_bit 8 (ucast (data ! 5)) OR ucast (data ! 6) :: 16 word);
          pressure_kpa = float_mul (float_of_nat (unat pressure_raw)) (float_lit 0.25);
          i2 = i1\<lparr>pressure := float_mul pressure_kpa (float_lit 0.01)\<rparr>;
          temp_raw = data ! 7;
          i3 = i2\<lparr>temperature := float_sub (float_of_nat (unat temp_raw)) (float_lit 40)\<rparr>;
          flags = data ! 8;
          battery_low_flag = (flags AND 0x80 = 0x80);
          i4 = i3\<lparr>battery_low := of_bool battery_low_flag\<rparr>
      in i4\<lparr>data_tpms := pack_bytes 9 8 data, data_count_bit := 72\<rparr>)"

text \<open>
  The pulse-width test that the preamble case and the data case both spell out:
  the duration stored by the previous call decides between bit 1, bit 0 and no bit.
\<close>

definition nissan_pwm_bit :: "32 word \<Rightarrow> bool option" where
  "nissan_pwm_bit last_dur =
     (if last_dur \<ge> te_long tpms_protocol_nissan_const - te_delta tpms_protocol_nissan_const
      then Some True
      else if last_dur \<ge> te_short tpms_protocol_nissan_const
                            - te_delta tpms_protocol_nissan_const
      then Some False
      else None)"

text \<open>The sync byte and the byte loop of the data case.\<close>

definition nissan_pack_bytes :: "64 word \<Rightarrow> 8 word list \<Rightarrow> 8 word list" where
  "nissan_pack_bytes acc buf =
     fold (\<lambda>i buf. buf[i + 1 := ucast (drop_bit ((7 - i) * 8) acc AND 0xFF)]) [0..<8]
       (buf[0 := NISSAN_SYNC_PATTERN])"

text \<open>The block of the data case that handles a complete frame.\<close>

definition nissan_frame_found :: "TPMSProtocolDecoderNissan \<Rightarrow> TPMSProtocolDecoderNissan" where
  "nissan_frame_found instance =
     (let i1 = instance\<lparr>pwm_data :=
                 nissan_pack_bytes (decode_data (decoder instance)) (pwm_data instance)\<rparr>;
          i2 = (if tpms_protocol_nissan_check_crc (pwm_data i1)
                then invoke_callback
                       (i1\<lparr>generic := tpms_protocol_nissan_analyze (generic i1) (pwm_data i1)\<rparr>)
                else i1)
      in i2\<lparr>decoder := (decoder i2)\<lparr>parser_step := NissanDecoderStepReset\<rparr>\<rparr>)"

text \<open>
  \<^verbatim>\<open>case NissanDecoderStepReset:\<close> the case ends without storing the level and the
  duration of the edge.
\<close>

definition nissan_feed_reset ::
  "TPMSProtocolDecoderNissan \<Rightarrow> bool \<Rightarrow> 32 word \<Rightarrow> TPMSProtocolDecoderNissan" where
  "nissan_feed_reset instance level duration =
     (if level \<and> duration \<ge> te_long tpms_protocol_nissan_const
                                - te_delta tpms_protocol_nissan_const
      then instance\<lparr>decoder := \<lparr>parser_step = NissanDecoderStepPreamble, decode_data = 0,
                                 decode_count_bit = 0\<rparr>\<rparr>
      else instance)"

text \<open>The sync search that follows each bit of the preamble case.\<close>

definition nissan_sync_search :: "TPMSProtocolDecoderNissan \<Rightarrow> TPMSProtocolDecoderNissan" where
  "nissan_sync_search i1 =
     (if decode_count_bit (decoder i1) \<ge> 28
      then
        let sync_check = (ucast (decode_data (decoder i1) AND 0xFF) :: 8 word);
            i2 = (if sync_check = NISSAN_SYNC_PATTERN
                  then i1\<lparr>decoder := \<lparr>parser_step = NissanDecoderStepData, decode_data = 0,
                                        decode_count_bit = 0\<rparr>,
                          pwm_data := replicate 9 0\<rparr>
                  else i1)
        in if decode_count_bit (decoder i2) > 40
           then i2\<lparr>decoder := (decoder i2)\<lparr>parser_step := NissanDecoderStepReset\<rparr>\<rparr>
           else i2
      else i1)"

text \<open>
  \<^verbatim>\<open>case NissanDecoderStepPreamble:\<close> a duration below both thresholds leaves the
  \<^verbatim>\<open>switch\<close> at once, before the level and the duration are stored.
\<close>

definition nissan_feed_preamble ::
  "TPMSProtocolDecoderNissan \<Rightarrow> bool \<Rightarrow> 32 word \<Rightarrow> TPMSProtocolDecoderNissan" where
  "nissan_feed_preamble instance level duration =
     (if \<not> level
      then
        (case nissan_pwm_bit (last_duration instance) of
           None \<Rightarrow>
             instance\<lparr>decoder := (decoder instance)\<lparr>parser_step := NissanDecoderStepReset\<rparr>\<rparr>
         | Some bit_value \<Rightarrow>
             let i1 = instance\<lparr>decoder :=
                        subghz_protocol_blocks_add_bit (decoder instance) bit_value\<rparr>
             in (nissan_sync_search i1)\<lparr>last_level := level, last_duration := duration\<rparr>)
      else instance\<lparr>last_level := level, last_duration := duration\<rparr>)"

text \<open>\<^verbatim>\<open>case NissanDecoderStepData:\<close>\<close>

definition nissan_feed_data ::
  "TPMSProtocolDecoderNissan \<Rightarrow> bool \<Rightarrow> 32 word \<Rightarrow> TPMSProtocolDecoderNissan" where
  "nissan_feed_data instance level duration =
     (if \<not> level
      then
        (case nissan_pwm_bit (last_duration instance) of
           None \<Rightarrow>
             instance\<lparr>decoder := (decoder instance)\<lparr>parser_step := NissanDecoderStepReset\<rparr>\<rparr>
         | Some bit_value \<Rightarrow>
             let i1 = instance\<lparr>decoder :=
                        subghz_protocol_blocks_add_bit (decoder instance) bit_value\<rparr>;
                 i2 = (if decode_count_bit (decoder i1)
                            \<ge> min_count_bit_for_found tpms_protocol_nissan_const
                       then nissan_frame_found i1
                       else i1)
             in i2\<lparr>last_level := level, last_duration := duration\<rparr>)
      else instance\<lparr>last_level := level, last_duration := duration\<rparr>)"

definition tpms_protocol_decoder_nissan_feed ::
  "TPMSProtocolDecoderNissan \<Rightarrow> bool \<Rightarrow> 32 word \<Rightarrow> TPMSProtocolDecoderNissan" where
  "tpms_protocol_decoder_nissan_feed instance level duration =
     (case parser_step (decoder instance) of
        NissanDecoderStepReset \<Rightarrow> nissan_feed_reset instance level duration
      | NissanDecoderStepPreamble \<Rightarrow> nissan_feed_preamble instance level duration
      | NissanDecoderStepData \<Rightarrow> nissan_feed_data instance level duration)"

section \<open>Toyota\<close>

definition tpms_protocol_toyota_const :: SubGhzBlockConst where
  "tpms_protocol_toyota_const =
     \<lparr>te_short = 52, te_long = 52, te_delta = 15, min_count_bit_for_found = 72\<rparr>"

datatype ToyotaDecoderStep =
  ToyotaDecoderStepReset | ToyotaDecoderStepSync | ToyotaDecoderStepData

record TPMSProtocolDecoderToyota = "ToyotaDecoderStep TPMSProtocolDecoderBuffered" +
  manchester_bit_count :: "8 word"
  looking_for_sync :: bool
  sync_found_bits :: "16 word"

definition tpms_protocol_decoder_toyota_reset ::
  "TPMSProtocolDecoderToyota \<Rightarrow> TPMSProtocolDecoderToyota" where
  "tpms_protocol_decoder_toyota_reset instance =
     instance\<lparr>decoder := (decoder instance)\<lparr>parser_step := ToyotaDecoderStepReset\<rparr>,
              manchester_bit_count := 0,
              looking_for_sync := True,
              sync_found_bits := 0\<rparr>"

definition tpms_protocol_toyota_check_crc :: "8 word list \<Rightarrow> bool" where
  "tpms_protocol_toyota_check_crc data =
     (let crc = subghz_protocol_blocks_crc8 data 8 0x07 0x80 in crc = data ! 8)"

text \<open>The two copies of the pressure that the analysis compares.\<close>

definition toyota_pressure1 :: "8 word list \<Rightarrow> 8 word" where
  "toyota_pressure1 data = push_bit 1 (data ! 4 AND 0x7f) OR drop_bit 7 (data ! 5)"

definition toyota_pressure2 :: "8 word list \<Rightarrow> 8 word" where
  "toyota_pressure2 data = data ! 7 XOR 0xff"

text \<open>
  The analysis returns early when the two pressure copies differ: only the
  assignment to \<^verbatim>\<open>id\<close> has happened by then.
\<close>

definition tpms_protocol_toyota_analyze ::
  "TPMSBlockGeneric \<Rightarrow> 8 word list \<Rightarrow> TPMSBlockGeneric" where
  "tpms_protocol_toyota_analyze instance data =
     (let i1 = instance\<lparr>id_tpms := be32 (data ! 0) (data ! 1) (data ! 2) (data ! 3)\<rparr>;
          status = (data ! 4 AND 0x80) OR (data ! 6 AND 0x7f);
          pressure1 = toyota_pressure1 data;
          temp = push_bit 1 (data ! 5 AND 0x7f) OR drop_bit 7 (data ! 6);
          pressure2 = toyota_pressure2 data
      in if pressure1 \<noteq> pressure2 then i1
         else
           let i2 = i1\<lparr>temperature := float_sub (float_of_nat (unat temp)) (float_lit 40)\<rparr>;
               i3 = i2\<lparr>pressure :=
                      float_mul
                        (float_sub (float_mul (float_of_nat (unat pressure1)) (float_lit 0.25))
                           (float_lit 7))
                        (float_lit 0.0689476)\<rparr>;
               i4 = i3\<lparr>battery_low := (if status AND 0x80 \<noteq> 0 then 1 else 0)\<rparr>
           in i4\<lparr>data_tpms :=
                   push_bit 56 (ucast (data ! 0)) OR push_bit 48 (ucast (data ! 1)) OR
                   push_bit 40 (ucast (data ! 2)) OR push_bit 32 (ucast (data ! 3)) OR
                   push_bit 24 (ucast (data ! 4)) OR push_bit 16 (ucast (data ! 5)) OR
                   push_bit 8 (ucast (data ! 6)) OR ucast (data ! 7),
                 data_count_bit := 72\<rparr>)"

text \<open>
  The byte loop of the data case reads \<^verbatim>\<open>decode_data >> ((8-i) * 8)\<close>; for \<open>i = 0\<close>
  this is a shift of the 64-bit accumulator by 64 bits, which C leaves undefined.
  \<^const>\<open>drop_bit\<close> yields 0 there, the value of an accumulator shifted out entirely.
\<close>

definition toyota_pack_bytes :: "64 word \<Rightarrow> 8 word list \<Rightarrow> 8 word list" where
  "toyota_pack_bytes acc buf =
     fold (\<lambda>i buf. buf[i := ucast (drop_bit ((8 - i) * 8) acc AND 0xFF)]) [0..<9] buf"

text \<open>
  The block of the data case that handles a complete frame. The callback is
  invoked whenever the CRC holds, whatever the analysis did.
\<close>

definition toyota_frame_found :: "TPMSProtocolDecoderToyota \<Rightarrow> TPMSProtocolDecoderToyota" where
  "toyota_frame_found instance =
     (let i1 = instance\<lparr>manchester_data :=
                 toyota_pack_bytes (decode_data (decoder instance)) (manchester_data instance)\<rparr>;
          i2 = (if tpms_protocol_toyota_check_crc (manchester_data i1)
                then invoke_callback
                       (i1\<lparr>generic := tpms_protocol_toyota_analyze (generic i1)
                                        (manchester_data i1)\<rparr>)
                else i1)
      in i2\<lparr>decoder := (decoder i2)\<lparr>parser_step := ToyotaDecoderStepReset\<rparr>\<rparr>)"

text \<open>\<^verbatim>\<open>case ToyotaDecoderStepReset:\<close>\<close>

definition toyota_feed_reset ::
  "TPMSProtocolDecoderToyota \<Rightarrow> bool \<Rightarrow> 32 word \<Rightarrow> TPMSProtocolDecoderToyota" where
  "toyota_feed_reset instance level duration =
     (if level \<and> DURATION_DIFF duration (te_short tpms_protocol_toyota_const)
                   < te_delta tpms_protocol_toyota_const
      then instance\<lparr>decoder := \<lparr>parser_step = ToyotaDecoderStepSync, decode_data = 0,
                                 decode_count_bit = 0\<rparr>,
                    manchester_bit_count := 0\<rparr>
      else instance)"

text \<open>\<^verbatim>\<open>case ToyotaDecoderStepSync:\<close>\<close>

definition toyota_feed_sync ::
  "TPMSProtocolDecoderToyota \<Rightarrow> bool \<Rightarrow> 32 word \<Rightarrow> TPMSProtocolDecoderToyota" where
  "toyota_feed_sync instance level duration =
     (if DURATION_DIFF duration (te_short tpms_protocol_toyota_const)
           < te_delta tpms_protocol_toyota_const
      then
        let i1 = instance\<lparr>decoder := subghz_protocol_blocks_add_bit (decoder instance) level\<rparr>
        in if decode_count_bit (decoder i1) \<ge> 12
           then
             let sync_check =
                   (ucast (drop_bit (unat (decode_count_bit (decoder i1)) - 12)
                             (decode_data (decoder i1)) AND 0xFFF) :: 16 word);
                 i2 = (if sync_check = 0xa9e
                       then i1\<lparr>decoder := \<lparr>parser_step = ToyotaDecoderStepData,
                                             decode_data = 0, decode_count_bit = 0\<rparr>,
                               manchester_data := replicate 10 0,
                               manchester_bit_count := 0\<rparr>
                       else i1)
             in if decode_count_bit (decoder i2) > 24
                then i2\<lparr>decoder := (decoder i2)\<lparr>parser_step := ToyotaDecoderStepReset\<rparr>\<rparr>
                else i2
           else i1
      else instance\<lparr>decoder := (decoder instance)\<lparr>parser_step := ToyotaDecoderStepReset\<rparr>\<rparr>)"

text \<open>\<^verbatim>\<open>case ToyotaDecoderStepData:\<close> each level is taken as a data bit.\<close>

definition toyota_feed_data ::
  "TPMSProtocolDecoderToyota \<Rightarrow> bool \<Rightarrow> 32 word \<Rightarrow> TPMSProtocolDecoderToyota" where
  "toyota_feed_data instance level duration =
     (if DURATION_DIFF duration (te_short tpms_protocol_toyota_const)
           < te_delta tpms_protocol_toyota_const
      then
        let i1 = instance\<lparr>decoder := subghz_protocol_blocks_add_bit (decoder instance) level\<rparr>
        in if decode_count_bit (decoder i1)
                \<ge> min_count_bit_for_found tpms_protocol_toyota_const
           then toyota_frame_found i1
           else i1
      else instance\<lparr>decoder := (decoder instance)\<lparr>parser_step := ToyotaDecoderStepReset\<rparr>\<rparr>)"

definition tpms_protocol_decoder_toyota_feed ::
  "TPMSProtocolDecoderToyota \<Rightarrow> bool \<Rightarrow> 32 word \<Rightarrow> TPMSProtocolDecoderToyota" where
  "tpms_protocol_decoder_toyota_feed instance level duration =
     (case parser_step (decoder instance) of
        ToyotaDecoderStepReset \<Rightarrow> toyota_feed_reset instance level duration
      | ToyotaDecoderStepSync \<Rightarrow> toyota_feed_sync instance level duration
      | ToyotaDecoderStepData \<Rightarrow> toyota_feed_data instance level duration)"

section \<open>Deserialization\<close>

text \<open>
  Modelled from the spec: \<^verbatim>\<open>tpms_block_generic_deserialize_check_count_bit\<close> is defined
  in \<^verbatim>\<open>tpms_generic.c\<close>, which is not among the sources; the five decoders only call
  it with their \<^verbatim>\<open>min_count_bit_for_found\<close>. By sections 4.4, 6 and 7 of the spec a
  persisted record holds the raw bit pattern and the bit count, the status
  ``signals malformed or truncated external data'', and a ``bit-count mismatch
  against the protocol's fixed width is a hard validation failure''. A record is
  modelled by the two entries the reading is restored from, each of which may be
  missing. What the reading holds after a failure is not described; the model
  leaves it as it was.
\<close>

datatype SubGhzProtocolStatus =
  SubGhzProtocolStatusOk | SubGhzProtocolStatusError | SubGhzProtocolStatusErrorValueBitCount

record FlipperFormat =
  record_bit :: "nat option"
  record_key :: "64 word option"

definition tpms_block_generic_deserialize_check_count_bit ::
  "TPMSBlockGeneric \<Rightarrow> FlipperFormat \<Rightarrow> 16 word \<Rightarrow> SubGhzProtocolStatus \<times> TPMSBlockGeneric" where
  "tpms_block_generic_deserialize_check_count_bit instance flipper_format count_bit =
     (case (record_bit flipper_format, record_key flipper_format) of
        (Some bits, Some key) \<Rightarrow>
          if bits \<noteq> unat count_bit
          then (SubGhzProtocolStatusErrorValueBitCount, instance)
          else (SubGhzProtocolStatusOk, instance\<lparr>data_tpms := key, data_count_bit := bits\<rparr>)
      | _ \<Rightarrow> (SubGhzProtocolStatusError, instance))"

definition tpms_protocol_decoder_ford_deserialize ::
  "TPMSProtocolDecoderFord \<Rightarrow> FlipperFormat \<Rightarrow> SubGhzProtocolStatus \<times> TPMSProtocolDecoderFord" where
  "tpms_protocol_decoder_ford_deserialize instance flipper_format =
     (let (status, g) = tpms_block_generic_deserialize_check_count_bit (generic instance)
                          flipper_format (min_count_bit_for_found tpms_protocol_ford_const)
      in (status, instance\<lparr>generic := g\<rparr>))"

definition tpms_protocol_decoder_gm_deserialize ::
  "TPMSProtocolDecoderGM \<Rightarrow> FlipperFormat \<Rightarrow> SubGhzProtocolStatus \<times> TPMSProtocolDecoderGM" where
  "tpms_protocol_decoder_gm_deserialize instance flipper_format =
     (let (status, g) = tpms_block_generic_deserialize_check_count_bit (generic instance)
                          flipper_format (min_count_bit_for_found tpms_protocol_gm_const)
      in (status, instance\<lparr>generic := g\<rparr>))"

definition tpms_protocol_decoder_hyundai_deserialize ::
  "TPMSProtocolDecoderHyundai \<Rightarrow> FlipperFormat
     \<Rightarrow> SubGhzProtocolStatus \<times> TPMSProtocolDecoderHyundai" where
  "tpms_protocol_decoder_hyundai_deserialize instance flipper_format =
     (let (status, g) = tpms_block_generic_deserialize_check_count_bit (generic instance)
                          flipper_format (min_count_bit_for_found tpms_protocol_hyundai_const)
      in (status, instance\<lparr>generic := g\<rparr>))"

definition tpms_protocol_decoder_nissan_deserialize ::
  "TPMSProtocolDecoderNissan \<Rightarrow> FlipperFormat
     \<Rightarrow> SubGhzProtocolStatus \<times> TPMSProtocolDecoderNissan" where
  "tpms_protocol_decoder_nissan_deserialize instance flipper_format =
     (let (status, g) = tpms_block_generic_deserialize_check_count_bit (generic instance)
                          flipper_format (min_count_bit_for_found tpms_protocol_nissan_const)
      in (status, instance\<lparr>generic := g\<rparr>))"

definition tpms_protocol_decoder_toyota_deserialize ::
  "TPMSProtocolDecoderToyota \<Rightarrow> FlipperFormat
     \<Rightarrow> SubGhzProtocolStatus \<times> TPMSProtocolDecoderToyota" where
  "tpms_protocol_decoder_toyota_deserialize instance flipper_format =
     (let (status, g) = tpms_block_generic_deserialize_check_count_bit (generic instance)
                          flipper_format (min_count_bit_for_found tpms_protocol_toyota_const)
      in (status, instance\<lparr>generic := g\<rparr>))"

section \<open>Edge streams\<close>

text \<open>
  The host delivers edges one at a time, in order, to the feed operation of a
  decoder (spec section 5). A stream of edges is a list of level and duration
  pairs; feeding it is feeding its edges from left to right.
\<close>

type_synonym edge = "bool \<times> 32 word"

definition feed_edges :: "('s \<Rightarrow> bool \<Rightarrow> 32 word \<Rightarrow> 's) \<Rightarrow> 's \<Rightarrow> edge list \<Rightarrow> 's" where
  "feed_edges feed instance edges = foldl (\<lambda>s e. feed s (fst e) (snd e)) instance edges"

text \<open>
  Levels are written as strings of the characters 0 and 1; a list of levels becomes
  a stream of edges that all last the same duration.
\<close>

definition levels :: "string \<Rightarrow> bool list" where
  "levels s = map (\<lambda>c. c = CHR ''1'') s"

definition level_edges :: "32 word \<Rightarrow> bool list \<Rightarrow> edge list" where
  "level_edges period ls = map (\<lambda>l. (l, period)) ls"

text \<open>
  Modelled from the spec: an instance of the Manchester recoverer for running the
  Manchester decoders on concrete streams. Section 4.2 of the spec describes an
  automaton of two phases in which ``every second qualifying transition yields
  exactly one recovered bit whose value is determined by the edge direction''. The
  first half-bit moves from the start state to the middle state, the second
  half-bit moves back and yields the bit, 1 for a high second half.
\<close>

definition manchester_two_phase :: manchester_advance_fn where
  "manchester_two_phase state event =
     (case state of
        ManchesterStateStart1 \<Rightarrow> (False, ManchesterStateMid1, False)
      | _ \<Rightarrow> (True, ManchesterStateStart1, event = ManchesterEventShortHigh))"



section \<open>Properties of runs\<close>



section \<open>Sample inputs\<close>

text \<open>
  A Ford frame with sensor identifier \<^verbatim>\<open>0x12345678\<close>, pressure byte \<^verbatim>\<open>0x64\<close>,
  temperature byte \<^verbatim>\<open>0x3A\<close>, flags \<^verbatim>\<open>0x04\<close> and the matching checksum, and a reading
  with every member cleared.
\<close>

definition ford_sample_frame :: "8 word list" where
  "ford_sample_frame = [0x12, 0x34, 0x56, 0x78, 0x64, 0x3A, 0x04, 0xB6]"

definition generic_blank :: TPMSBlockGeneric where
  "generic_blank = \<lparr>protocol_name = [], id_tpms = 0, data_tpms = 0, data_count_bit = 0,
     battery_low = 0, pressure = 0, temperature = 0\<rparr>"

text \<open>
  A Toyota decoder after allocation and reset, with a callback registered, and a
  stream of edges of nominal duration: one high edge that starts the sync search,
  the twelve sync bits \<^verbatim>\<open>0xA9E\<close>, eight bits that are shifted out of the accumulator,
  and all but the last bit of the eight bytes \<^verbatim>\<open>12 34 56 4E 20 80 64 F4\<close>. With the
  last bit 0 the assembled buffer is \<^verbatim>\<open>00 12 34 56 4E 20 80 64 F4\<close>: its CRC holds,
  its first pressure copy is \<^verbatim>\<open>0x9C\<close> and its second is \<^verbatim>\<open>0x9B\<close>.
\<close>

definition toyota_power_on :: TPMSProtocolDecoderToyota where
  "toyota_power_on =
     \<lparr>base = \<lparr>callback = True, callback_log = []\<rparr>,
      decoder = \<lparr>parser_step = ToyotaDecoderStepReset, decode_data = 0, decode_count_bit = 0\<rparr>,
      generic = generic_blank,
      manchester_data = replicate 10 0,
      manchester_bit_count = 0, looking_for_sync = True, sync_found_bits = 0\<rparr>"

definition toyota_mismatch_prefix :: "edge list" where
  "toyota_mismatch_prefix =
     (True, 52) # level_edges 52 (levels
       (''101010011110'' @ ''00000000'' @
        ''00010010'' @ ''00110100'' @ ''01010110'' @ ''01001110'' @
        ''00100000'' @ ''10000000'' @ ''01100100'' @ ''1111010''))"

definition toyota_before_last :: TPMSProtocolDecoderToyota where
  "toyota_before_last =
     toyota_power_on\<lparr>decoder := \<lparr>parser_step = ToyotaDecoderStepData,
        decode_data = 0x091A2B271040327A, decode_count_bit = 71\<rparr>\<rparr>"

definition toyota_mismatch_reading :: TPMSBlockGeneric where
  "toyota_mismatch_reading = generic_blank\<lparr>id_tpms := 0x123456\<rparr>"

definition toyota_after_last :: TPMSProtocolDecoderToyota where
  "toyota_after_last =
     toyota_power_on
       \<lparr>base := \<lparr>callback = True, callback_log = [toyota_mismatch_reading]\<rparr>,
        decoder := \<lparr>parser_step = ToyotaDecoderStepReset,
          decode_data = 0x1234564E208064F4, decode_count_bit = 72\<rparr>,
        generic := toyota_mismatch_reading,
        manchester_data := [0, 0x12, 0x34, 0x56, 0x4E, 0x20, 0x80, 0x64, 0xF4, 0]\<rparr>"

section \<open>Properties of the sync search\<close>

text \<open>
  The tests by which the sync searches recognise their pattern in the accumulator,
  after the bit of the current edge has been added.
\<close>

definition ford_sync_found :: "'step SubGhzBlockDecoder \<Rightarrow> bool" where
  "ford_sync_found dec \<longleftrightarrow>
     decode_count_bit dec \<ge> 16 \<and>
     (ucast (drop_bit (unat (decode_count_bit dec) - 16) (decode_data dec) AND 0xFFFF)
        :: 16 word) = 0xaaa9"

definition gm_sync_found :: "'step SubGhzBlockDecoder \<Rightarrow> bool" where
  "gm_sync_found dec \<longleftrightarrow>
     decode_count_bit dec \<ge> 16 \<and>
     (ucast (drop_bit (unat (decode_count_bit dec) - 16) (decode_data dec) AND 0xFFFF)
        :: 16 word) = 0x555D"

definition hyundai_sync_found :: "'step SubGhzBlockDecoder \<Rightarrow> bool" where
  "hyundai_sync_found dec \<longleftrightarrow>
     decode_count_bit dec \<ge> 28 \<and>
     (ucast (decode_data dec AND 0x0FFFFFFF) :: 32 word) = 0x5555556"

definition nissan_sync_found :: "'step SubGhzBlockDecoder \<Rightarrow> bool" where
  "nissan_sync_found dec \<longleftrightarrow>
     decode_count_bit dec \<ge> 28 \<and>
     (ucast (decode_data dec AND 0xFF) :: 8 word) = NISSAN_SYNC_PATTERN"

definition toyota_sync_found :: "'step SubGhzBlockDecoder \<Rightarrow> bool" where
  "toyota_sync_found dec \<longleftrightarrow>
     decode_count_bit dec \<ge> 12 \<and>
     (ucast (drop_bit (unat (decode_count_bit dec) - 12) (decode_data dec) AND 0xFFF)
        :: 16 word) = 0xa9e"

text \<open>
  A sync search is bounded along a stream of edges fed from a state when, with
  \<open>sync\<close> the step of the search, \<open>reset\<close> the initial step, \<open>limit\<close> the overflow
  ceiling, \<open>carries\<close> the edges on which the search adds a bit and \<open>found\<close> the test
  of the pattern:
  \<^item> whenever the decoder is in the search, the bit count is at most the ceiling;
  \<^item> as long as the decoder stays in the search, the bit count grows by one with
    every edge that carries a bit, so that the search cannot hold more than
    \<open>limit\<close> of them;
  \<^item> a call that leaves the search moves to the initial step, unless the pattern
    was found in the accumulator with the bit of that call added.
\<close>

definition sync_search_bounded ::
  "(('step, 'more) TPMSProtocolDecoder_scheme \<Rightarrow> bool \<Rightarrow> 32 word
      \<Rightarrow> ('step, 'more) TPMSProtocolDecoder_scheme)
     \<Rightarrow> 'step \<Rightarrow> 'step \<Rightarrow> nat \<Rightarrow> (edge \<Rightarrow> bool) \<Rightarrow> ('step SubGhzBlockDecoder \<Rightarrow> bool)
     \<Rightarrow> ('step, 'more) TPMSProtocolDecoder_scheme \<Rightarrow> edge list \<Rightarrow> bool" where
  "sync_search_bounded feed sync reset limit carries found s es \<longleftrightarrow>
     (\<forall>k \<le> length es.
        let t = feed_edges feed s (take k es)
        in parser_step (decoder t) = sync \<longrightarrow> unat (decode_count_bit (decoder t)) \<le> limit)
     \<and> ((\<forall>k \<le> length es. parser_step (decoder (feed_edges feed s (take k es))) = sync)
          \<longrightarrow> unat (decode_count_bit (decoder (feed_edges feed s es)))
                = unat (decode_count_bit (decoder s)) + length (filter carries es)
            \<and> unat (decode_count_bit (decoder s)) + length (filter carries es) \<le> limit)
     \<and> (\<forall>k < length es.
          let a = feed_edges feed s (take k es); b = feed_edges feed s (take (Suc k) es)
          in parser_step (decoder a) = sync \<and> parser_step (decoder b) \<noteq> sync
               \<longrightarrow> parser_step (decoder b) = reset
                     \<or> (\<exists>bit_value. found (subghz_protocol_blocks_add_bit (decoder a) bit_value)))"

section \<open>More sample inputs\<close>

text \<open>
  A Ford decoder and a Nissan decoder after allocation and reset, with a callback
  registered.
\<close>

definition ford_power_on :: TPMSProtocolDecoderFord where
  "ford_power_on =
     \<lparr>base = \<lparr>callback = True, callback_log = []\<rparr>,
      decoder = \<lparr>parser_step = FordDecoderStepReset, decode_data = 0, decode_count_bit = 0\<rparr>,
      generic = generic_blank,
      manchester_data = replicate 8 0,
      manchester_state = ManchesterStateStart1\<rparr>"

definition nissan_power_on :: TPMSProtocolDecoderNissan where
  "nissan_power_on =
     \<lparr>base = \<lparr>callback = True, callback_log = []\<rparr>,
      decoder = \<lparr>parser_step = NissanDecoderStepReset, decode_data = 0, decode_count_bit = 0\<rparr>,
      generic = generic_blank,
      pwm_data = replicate 9 0,
      last_level = False,
      last_duration = 0\<rparr>"

text \<open>
  Two streams for the Ford decoder: the edge that starts the sync search followed
  by the sixteen bits \<^verbatim>\<open>0xAAA9\<close>, and the same with one 0 bit before the sixteen.
\<close>

definition ford_sync_first :: "edge list" where
  "ford_sync_first = (True, 52) # level_edges 52 (levels ''1010101010101001'')"

definition ford_sync_late :: "edge list" where
  "ford_sync_late = (True, 52) # level_edges 52 (levels ''01010101010101001'')"

text \<open>
  The Ford decoder after the edge that starts the sync search, and a stream of 33
  high edges of nominal duration, in which the sync pattern does not occur.
\<close>

definition ford_searching :: TPMSProtocolDecoderFord where
  "ford_searching =
     ford_power_on\<lparr>decoder := \<lparr>parser_step = FordDecoderStepSync, decode_data = 0,
       decode_count_bit = 0\<rparr>\<rparr>"

definition ford_noise :: "edge list" where
  "ford_noise = level_edges 52 (replicate 33 True)"

text \<open>
  A stream for the Nissan decoder: a long high pulse that starts the preamble, a
  high pulse of 200 microseconds, and the falling edge that follows it.
\<close>

definition nissan_long_pulse :: "edge list" where
  "nissan_long_pulse = [(True, 104), (True, 200), (False, 52)]"

text \<open>A persisted record of 72 bits and one of 64 bits.\<close>

definition record_72 :: FlipperFormat where
  "record_72 = \<lparr>record_bit = Some 72, record_key = Some 0x1234564E208064F4\<rparr>"

definition record_64 :: FlipperFormat where
  "record_64 = \<lparr>record_bit = Some 64, record_key = Some 0x123456786400A0B6\<rparr>"

section \<open>Single-precision rounding\<close>

lemma pow2_powr: "pow2 e = 2 powr (real_of_int e)"
  by (simp add: pow2_def powr_realpow [symmetric] powr_minus divide_inverse)

lemma pow2_pos [simp]: "0 < pow2 e"
  by (simp add: pow2_powr)

lemma pow2_mono: "e \<le> e' \<Longrightarrow> pow2 e \<le> pow2 e'"
  by (simp add: pow2_powr)

lemma pow2_less_cancel: "pow2 e < pow2 e' \<Longrightarrow> e < e'"
  by (simp add: pow2_powr)

lemma pow2_add: "pow2 (a + b) = pow2 a * pow2 b"
  by (simp add: pow2_powr powr_add)

lemma pow2_diff: "pow2 (a - b) = pow2 a / pow2 b"
  by (simp add: pow2_powr powr_diff)

lemma pow2_nat: "0 \<le> e \<Longrightarrow> pow2 e = 2 ^ nat e"
  by (simp add: pow2_def)

lemma binary32_search_cases:
  "pow2 (binary32_search n e a) \<le> a \<or> binary32_search n e a = e - int n"
proof (induction n arbitrary: e)
  case 0
  then show ?case by simp
next
  case (Suc n)
  from Suc [of "e - 1"] show ?case by (auto simp: algebra_simps)
qed

lemma binary32_exponent_le:
  assumes "\<bar>x\<bar> < pow2 (k + 1)" and "- 126 \<le> k"
  shows "binary32_exponent x \<le> k"
proof -
  from binary32_search_cases [of 253 127 "\<bar>x\<bar>"]
  have "pow2 (binary32_exponent x) \<le> \<bar>x\<bar> \<or> binary32_exponent x = - 126"
    by (simp add: binary32_exponent_def)
  then show ?thesis
  proof
    assume "pow2 (binary32_exponent x) \<le> \<bar>x\<bar>"
    with assms(1) have "pow2 (binary32_exponent x) < pow2 (k + 1)" by simp
    then have "binary32_exponent x < k + 1" by (rule pow2_less_cancel)
    then show ?thesis by simp
  next
    assume "binary32_exponent x = - 126"
    with assms(2) show ?thesis by simp
  qed
qed

lemma round_half_even_error: "\<bar>of_int (round_half_even y) - y\<bar> \<le> 1 / 2"
  unfolding round_half_even_def Let_def by (auto simp: abs_le_iff; linarith)

lemma round_half_even_of_int [simp]: "round_half_even (of_int k) = k"
  by (simp add: round_half_even_def)

lemma binary32_error:
  assumes "\<bar>x\<bar> < pow2 (k + 1)" and "- 126 \<le> k"
  shows "\<bar>binary32 x - x\<bar> \<le> pow2 (k - 24)"
proof -
  define u where "u = pow2 (binary32_exponent x - 23)"
  have u: "0 < u" by (simp add: u_def)
  have "binary32_exponent x - 23 \<le> k - 23"
    using binary32_exponent_le [OF assms] by simp
  then have ule: "u \<le> pow2 (k - 23)"
    unfolding u_def by (rule pow2_mono)
  have "binary32 x - x = (of_int (round_half_even (x / u)) - x / u) * u"
    using u by (simp add: binary32_def u_def [symmetric] field_simps)
  then have "\<bar>binary32 x - x\<bar> = \<bar>of_int (round_half_even (x / u)) - x / u\<bar> * u"
    using u by (simp add: abs_mult)
  also have "\<dots> \<le> 1 / 2 * u"
    using u round_half_even_error [of "x / u"] by (intro mult_right_mono) simp_all
  also have "\<dots> \<le> 1 / 2 * pow2 (k - 23)"
    using ule by simp
  also have "\<dots> = pow2 (k - 24)"
    using pow2_diff [of "k - 23" 1] by (simp add: pow2_def)
  finally show ?thesis .
qed

lemma binary32_exact:
  assumes x: "x = of_int m * pow2 j" and bound: "\<bar>x\<bar> < pow2 (j + 24)" and j: "- 149 \<le> j"
  shows "binary32 x = x"
proof -
  define e where "e = binary32_exponent x"
  have "\<bar>x\<bar> < pow2 (j + 23 + 1)"
    using bound by (simp add: algebra_simps)
  moreover have "- 126 \<le> j + 23"
    using j by simp
  ultimately have "e \<le> j + 23"
    unfolding e_def by (rule binary32_exponent_le)
  then have d: "0 \<le> j - (e - 23)" by simp
  have "x / pow2 (e - 23) = of_int m * pow2 (j - (e - 23))"
    by (simp add: x pow2_diff)
  also have "\<dots> = of_int (m * 2 ^ nat (j - (e - 23)))"
    using d by (simp add: pow2_nat)
  finally have q: "x / pow2 (e - 23) = of_int (m * 2 ^ nat (j - (e - 23)))" .
  have nz: "pow2 (e - 23) \<noteq> 0"
    by (metis pow2_pos less_irrefl)
  show ?thesis
    unfolding binary32_def Let_def e_def [symmetric] q round_half_even_of_int
    unfolding q [symmetric] using nz by simp
qed

lemma binary32_of_int:
  assumes "\<bar>m\<bar> < 2 ^ 24"
  shows "binary32 (of_int m) = of_int m"
proof (rule binary32_exact [where m = m and j = 0])
  show "of_int m = of_int m * pow2 0" by (simp add: pow2_def)
  have "\<bar>real_of_int m\<bar> < 2 ^ 24"
    using assms by (metis of_int_abs of_int_less_numeral_power_cancel_iff)
  then show "\<bar>real_of_int m\<bar> < pow2 (0 + 24)" by (simp add: pow2_def)
qed simp

lemma binary32_quarters:
  assumes "\<bar>m\<bar> < 2 ^ 24"
  shows "binary32 (of_int m * 0.25) = of_int m * 0.25"
proof (rule binary32_exact [where m = m and j = "- 2"])
  show "of_int m * 0.25 = of_int m * pow2 (- 2)" by (simp add: pow2_def)
  have "\<bar>real_of_int m\<bar> < 2 ^ 24"
    using assms by (metis of_int_abs of_int_less_numeral_power_cancel_iff)
  then show "\<bar>real_of_int m * 0.25\<bar> < pow2 (- 2 + 24)" by (simp add: pow2_def abs_mult)
qed simp

lemma float_of_nat_exact: "n < 2 ^ 24 \<Longrightarrow> float_of_nat n = real n"
  using binary32_of_int [of "int n"] by (simp add: float_of_nat_def)

lemma float_lit_int: "\<bar>m\<bar> < 2 ^ 24 \<Longrightarrow> float_lit (of_int m) = of_int m"
  by (simp add: float_lit_def binary32_of_int)

lemma float_lit_quarter: "float_lit 0.25 = 0.25"
  using binary32_quarters [of 1] by (simp add: float_lit_def)

lemma float_mul_quarter: "n < 2 ^ 24 \<Longrightarrow> float_mul (real n) 0.25 = real n * 0.25"
  using binary32_quarters [of "int n"] by (simp add: float_mul_def)

lemma float_sub_nat: "n < 2 ^ 23 \<Longrightarrow> k < 2 ^ 23 \<Longrightarrow> float_sub (real n) (real k) = real n - real k"
  using binary32_of_int [of "int n - int k"] by (simp add: float_sub_def)

lemma float_lit_psi_to_bar: "float_lit 0.0689476 = 4626995 / 67108864"
  unfolding float_lit_def by code_simp

lemma float_mul_error:
  assumes "\<bar>a * b\<bar> < 16"
  shows "\<bar>float_mul a b - a * b\<bar> \<le> 1 / 2 ^ 21"
  using binary32_error [of "a * b" 3] assms by (simp add: float_mul_def pow2_def)

section \<open>Bytes and words\<close>

lemma unat_b8_lt: "unat (b :: 8 word) < 256"
  using unsigned_less [of b, where ?'a = nat] by simp

lemma unat_ucast_8_32: "unat (ucast (b :: 8 word) :: 32 word) = unat b"
  using unat_b8_lt [of b] by (simp add: unsigned_ucast_eq take_bit_nat_eq_self)

lemma bit_ucast8_bound: "bit (ucast (b :: 8 word) :: 32 word) n \<Longrightarrow> n < 8"
  using bit_imp_le_length [of b n] by (simp add: bit_ucast_iff)

lemma bit_push_ucast8_bound:
  "bit (push_bit k (ucast (b :: 8 word) :: 32 word)) n \<Longrightarrow> k \<le> n \<and> n < k + 8"
  using bit_ucast8_bound [of b "n - k"] by (auto simp add: bit_push_bit_iff)

lemma or_eq_add_split:
  fixes a b :: "32 word"
  assumes "\<And>n. bit a n \<Longrightarrow> k \<le> n" and "\<And>n. bit b n \<Longrightarrow> n < k"
  shows "a OR b = a + b"
proof -
  have "\<not> bit a n \<or> \<not> bit b n" for n
  proof (rule ccontr)
    assume "\<not> (\<not> bit a n \<or> \<not> bit b n)"
    then have "bit a n" and "bit b n" by simp_all
    then have "k \<le> n" and "n < k" by (simp_all add: assms)
    then show False by simp
  qed
  then show ?thesis by (rule disjunctive_add [symmetric])
qed

lemma be32_as_sum:
  "be32 b0 b1 b2 b3 =
     push_bit 24 (ucast b0) + (push_bit 16 (ucast b1) + (push_bit 8 (ucast b2) + ucast b3))"
proof -
  let ?l1 = "push_bit 8 (ucast b2) OR ucast b3 :: 32 word"
  let ?l2 = "push_bit 16 (ucast b1) OR ?l1"
  have lo1: "n < 16" if "bit ?l1 n" for n
    using that bit_push_ucast8_bound [of 8 b2 n] bit_ucast8_bound [of b3 n]
    unfolding bit_or_iff by (elim disjE) simp_all
  have lo2: "n < 24" if "bit ?l2 n" for n
    using that bit_push_ucast8_bound [of 16 b1 n] lo1 [of n]
    unfolding bit_or_iff [of "push_bit 16 (ucast b1)"] by (elim disjE) simp_all
  have e1: "?l1 = push_bit 8 (ucast b2) + ucast b3"
    by (rule or_eq_add_split [where k = 8])
      (use bit_push_ucast8_bound [of 8 b2] bit_ucast8_bound [of b3] in simp_all)
  have e2: "?l2 = push_bit 16 (ucast b1) + ?l1"
    by (rule or_eq_add_split [where k = 16])
      (use bit_push_ucast8_bound [of 16 b1] lo1 in simp_all)
  have e3: "push_bit 24 (ucast b0) OR ?l2 = push_bit 24 (ucast b0) + ?l2"
    by (rule or_eq_add_split [where k = 24])
      (use bit_push_ucast8_bound [of 24 b0] lo2 in simp_all)
  have "be32 b0 b1 b2 b3 = push_bit 24 (ucast b0) OR ?l2"
    by (simp only: be32_def or.assoc)
  also have "\<dots> = push_bit 24 (ucast b0) + ?l2" by (rule e3)
  also have "?l2 = push_bit 16 (ucast b1) + ?l1" by (rule e2)
  also have "?l1 = push_bit 8 (ucast b2) + ucast b3" by (rule e1)
  finally show ?thesis .
qed

lemma unat_be32:
  "unat (be32 b0 b1 b2 b3) = unat b0 * 2 ^ 24 + unat b1 * 2 ^ 16 + unat b2 * 2 ^ 8 + unat b3"
proof -
  have lt: "unat b0 * 2 ^ 24 + (unat b1 * 2 ^ 16 + (unat b2 * 2 ^ 8 + unat b3)) < 2 ^ 32"
    using unat_b8_lt [of b0] unat_b8_lt [of b1] unat_b8_lt [of b2] unat_b8_lt [of b3] by simp
  have "unat (be32 b0 b1 b2 b3) =
      (unat b0 * 2 ^ 24 + (unat b1 * 2 ^ 16 + (unat b2 * 2 ^ 8 + unat b3))) mod 2 ^ 32"
    unfolding be32_as_sum
    by (simp add: unat_word_ariths push_bit_eq_mult unat_ucast_8_32 mod_simps)
  also have "\<dots> = unat b0 * 2 ^ 24 + (unat b1 * 2 ^ 16 + (unat b2 * 2 ^ 8 + unat b3))"
    using lt by (rule mod_less)
  finally show ?thesis by (simp only: add.assoc)
qed


lemma unat_ucast_8_16: "unat (ucast (b :: 8 word) :: 16 word) = unat b"
  using unat_b8_lt [of b] by (simp add: unsigned_ucast_eq take_bit_nat_eq_self)

lemma and_pow2_bit: "(x :: 8 word) AND 2 ^ n \<noteq> 0 \<longleftrightarrow> bit x n"
  by (simp add: and_exp_eq_0_iff_not_bit)

lemma and_0x20_bit: "(x :: 8 word) AND 0x20 \<noteq> 0 \<longleftrightarrow> bit x 5"
  using and_pow2_bit [of x 5] by simp

lemma and_0x80_bit: "(x :: 8 word) AND 0x80 \<noteq> 0 \<longleftrightarrow> bit x 7"
  using and_pow2_bit [of x 7] by simp

lemma unat_and_0x7f: "unat ((x :: 8 word) AND 0x7f) = unat x mod 128"
proof -
  have eq: "x AND 0x7f = take_bit 7 x"
    by (simp add: take_bit_eq_mask mask_numeral)
  show ?thesis
    unfolding eq by (simp only: unsigned_take_bit_eq) (simp add: take_bit_eq_mod)
qed

lemma unat_ucast_or_0x100: "unat ((ucast (x :: 8 word) :: 16 word) OR 0x100) = unat x + 256"
proof -
  have c: "(0x100 :: 16 word) = 2 ^ 8" by simp
  have "\<not> bit (ucast x :: 16 word) n \<or> \<not> bit (2 ^ 8 :: 16 word) n" for n
  proof (cases "n = 8")
    case True
    have "\<not> bit x 8" using bit_imp_le_length [of x 8] by auto
    with True show ?thesis by (simp only: bit_ucast_iff) simp
  next
    case False
    then show ?thesis by (simp only: bit_exp_iff) simp
  qed
  then have "(ucast x :: 16 word) OR 2 ^ 8 = ucast x + 2 ^ 8"
    by (simp only: disjunctive_add)
  then show ?thesis
    unfolding c using unat_b8_lt [of x] by (simp add: unat_word_ariths unat_ucast_8_16)
qed

lemma fold_sum_aux:
  "fold (\<lambda>i c. c + (data ! i :: 8 word)) [0..<n] c0 = c0 + (\<Sum>i<n. data ! i)"
  by (induction n arbitrary: c0) (simp_all add: add.assoc)

lemma unat_sum_word8:
  "unat (\<Sum>i<(n::nat). (f i :: 8 word)) = (\<Sum>i<n. unat (f i)) mod 256"
  by (induction n) (simp_all add: unat_word_ariths mod_simps add.commute)

lemma and_ff_word8: "(x :: 8 word) AND 0xff = x"
proof -
  have "(0xff :: 8 word) = - 1" by simp
  then show ?thesis by (simp only: word_bw_comms word_log_esimps and.right_neutral)
qed

lemma real_unsigned_ucast_or_0x100:
  "(unsigned ((ucast (x :: 8 word) :: 16 word) OR 0x100) :: real) = unsigned x + 256"
  using unat_ucast_or_0x100 [of x, THEN arg_cong [of _ _ real]] by simp

lemma real_unsigned_ucast_8_16:
  "(unsigned (ucast (x :: 8 word) :: 16 word) :: real) = unsigned x"
  using unat_ucast_8_16 [of x, THEN arg_cong [of _ _ real]] by simp

lemma real_unsigned_and_0x7f:
  "(unsigned ((x :: 8 word) AND 0x7f) :: real) = real (unat x mod 128)"
  using unat_and_0x7f [of x, THEN arg_cong [of _ _ real]] by simp


lemma sum_list_take7:
  "7 \<le> length B \<Longrightarrow> sum_list (map f (take 7 B)) = (\<Sum>i<7. f (B ! i))"
  by (simp add: sum_list_sum_nth atLeast0LessThan)

section \<open>Ford checksum and analysis\<close>

text \<open>
  C7. For every 8-byte buffer the Ford validation function returns true exactly
  when the sum of bytes 0 to 6, taken modulo 256, equals byte 7. A buffer whose
  last byte differs from that sum is therefore rejected.
\<close>

theorem ford_checksum_sum_mod_256:
  "length B = 8 \<Longrightarrow>
     tpms_protocol_ford_check_checksum B
       \<longleftrightarrow> sum_list (map unat (take 7 B)) mod 256 = unat (B ! 7)"
proof -
  assume len: "length B = 8"
  have "tpms_protocol_ford_check_checksum B \<longleftrightarrow> (\<Sum>i<7. B ! i) = B ! 7"
    by (simp add: tpms_protocol_ford_check_checksum_def fold_sum_aux and_ff_word8
          del: sum.lessThan_Suc)
  also have "\<dots> \<longleftrightarrow> unat (\<Sum>i<7. B ! i) = unat (B ! 7)"
    by (simp add: word_unat_eq_iff)
  also have "\<dots> \<longleftrightarrow> (\<Sum>i<7. unat (B ! i)) mod 256 = unat (B ! 7)"
    by (simp only: unat_sum_word8)
  also have "(\<Sum>i<7. unat (B ! i)) = sum_list (map unat (take 7 B))"
    using len by (simp only: sum_list_take7 [of B unat])
  finally show ?thesis .
qed

text \<open>
  The sample frame passes; the same frame with its last byte changed from
  \<^verbatim>\<open>0xB6\<close> to \<^verbatim>\<open>0xB7\<close> is rejected.
\<close>

theorem ford_checksum_sum_mod_256_witness:
  "length [0x12, 0x34, 0x56, 0x78, 0x64, 0x3A, 0x04, 0xB6 :: 8 word] = 8
   \<and> tpms_protocol_ford_check_checksum [0x12, 0x34, 0x56, 0x78, 0x64, 0x3A, 0x04, 0xB6]
   \<and> \<not> tpms_protocol_ford_check_checksum [0x12, 0x34, 0x56, 0x78, 0x64, 0x3A, 0x04, 0xB7]"
  using ford_checksum_sum_mod_256 [of "[0x12, 0x34, 0x56, 0x78, 0x64, 0x3A, 0x04, 0xB6]"]
    ford_checksum_sum_mod_256 [of "[0x12, 0x34, 0x56, 0x78, 0x64, 0x3A, 0x04, 0xB7]"]
  by simp

lemma float_quarter_of_nat:
  assumes "n < 2 ^ 24"
  shows "float_mul (float_of_nat n) (float_lit 0.25) = real n * 0.25"
  unfolding float_of_nat_exact [OF assms] float_lit_quarter
  by (rule float_mul_quarter [OF assms])

lemma float_sub_of_nat:
  "n < 2 ^ 23 \<Longrightarrow> k < 2 ^ 23 \<Longrightarrow>
     float_sub (float_of_nat n) (float_lit (real k)) = real n - real k"
  using float_lit_int [of "int k"] by (simp add: float_of_nat_exact float_sub_nat)

lemma float_psi_to_bar_error:
  assumes "0 \<le> x" and "x \<le> 128"
  shows "\<bar>float_mul x (float_lit 0.0689476) - x * 0.0689476\<bar> < 1 / 10 ^ 6"
proof -
  define c :: real where "c = 4626995 / 67108864"
  define F where "F = float_mul x c"
  define X where "X = x * c"
  define Y where "Y = x * 0.0689476"
  have "\<bar>x * c\<bar> < 16"
    using assms by (simp add: abs_mult c_def)
  then have 1: "\<bar>F - X\<bar> \<le> 1 / 2 ^ 21"
    unfolding F_def X_def by (rule float_mul_error)
  have d: "\<bar>c - 0.0689476\<bar> \<le> 2 / 10 ^ 9"
    by (simp add: c_def)
  have "X - Y = x * (c - 0.0689476)"
    by (simp add: X_def Y_def algebra_simps)
  then have "\<bar>X - Y\<bar> = x * \<bar>c - 0.0689476\<bar>"
    using assms(1) by (simp add: abs_mult)
  also have "\<dots> \<le> 128 * (2 / 10 ^ 9)"
    using assms d by (intro mult_mono) simp_all
  finally have 2: "\<bar>X - Y\<bar> \<le> 128 * (2 / 10 ^ 9)" .
  have 3: "\<bar>F - X\<bar> \<le> 1 / 2097152"
    using 1 by simp
  have 4: "\<bar>X - Y\<bar> \<le> 256 / 1000000000"
    using 2 by simp
  have "\<bar>F - Y\<bar> < 1 / 1000000"
    using 3 4 by linarith
  moreover have "float_lit 0.0689476 = c"
    unfolding c_def by (rule float_lit_psi_to_bar)
  ultimately show ?thesis
    by (simp add: F_def Y_def)
qed

text \<open>
  C6. For every checksum-valid 8-byte Ford frame the analysis sets the sensor
  identifier to the big-endian value of bytes 0 to 3, the pressure to the 9-bit raw
  value (byte 4, with bit \<^verbatim>\<open>0x20\<close> of byte 6 as ninth bit) times 0.25 PSI times
  0.0689476 bar, and the temperature to \<^verbatim>\<open>(byte5 & 0x7F) - 56\<close> when bit 7 of byte 5
  is clear and to -1000 when it is set. The product with 0.25 and the temperature
  are exact in single precision; the pressure is the product with the
  single-precision constant, rounded once more, and lies within one millionth of
  a bar of the exact product. Pressure byte \<^verbatim>\<open>0x64\<close> with the ninth bit clear gives raw
  100, 25 PSI and the stored value 14459359 / 8388608, which is 1.724 bar to three
  decimals.
\<close>

theorem ford_analyze_reading:
  assumes "length data = 8" and "tpms_protocol_ford_check_checksum data"
  shows "unat (id_tpms (tpms_protocol_ford_analyze g data)) =
           unat (data ! 0) * 2 ^ 24 + unat (data ! 1) * 2 ^ 16 + unat (data ! 2) * 2 ^ 8
             + unat (data ! 3)
       \<and> pressure (tpms_protocol_ford_analyze g data) =
           binary32 (real (unat (data ! 4) + (if bit (data ! 6) 5 then 256 else 0)) * 0.25
                       * binary32 0.0689476)
       \<and> \<bar>pressure (tpms_protocol_ford_analyze g data)
            - real (unat (data ! 4) + (if bit (data ! 6) 5 then 256 else 0)) * 0.25 * 0.0689476\<bar>
           < 1 / 10 ^ 6
       \<and> (\<not> bit (data ! 5) 7 \<longrightarrow>
            temperature (tpms_protocol_ford_analyze g data)
              = real (unat (data ! 5 AND 0x7F)) - 56)
       \<and> (bit (data ! 5) 7 \<longrightarrow> temperature (tpms_protocol_ford_analyze g data) = - 1000)
       \<and> (data ! 4 = 0x64 \<and> \<not> bit (data ! 6) 5 \<longrightarrow>
            float_mul (float_of_nat 100) (float_lit 0.25) = 25
            \<and> pressure (tpms_protocol_ford_analyze g data) = 14459359 / 8388608
            \<and> \<bar>pressure (tpms_protocol_ford_analyze g data) - 1.724\<bar> < 0.001)"
proof -
  define raw where "raw = unat (data ! 4) + (if bit (data ! 6) 5 then 256 else 0)"
  define pr :: "16 word"
    where "pr = (if data ! 6 AND 0x20 \<noteq> 0 then ucast (data ! 4) OR 0x100 else ucast (data ! 4))"
  let ?A = "tpms_protocol_ford_analyze g data"
  have pr: "unat pr = raw"
    by (simp add: pr_def raw_def and_0x20_bit unat_ucast_or_0x100 unat_ucast_8_16)
  have raw: "raw < 512"
    using unat_b8_lt [of "data ! 4"] by (simp add: raw_def)
  have id: "unat (id_tpms ?A) =
      unat (data ! 0) * 2 ^ 24 + unat (data ! 1) * 2 ^ 16 + unat (data ! 2) * 2 ^ 8
        + unat (data ! 3)"
    by (simp add: tpms_protocol_ford_analyze_def Let_def unat_be32)
  have "pressure ?A =
      float_mul (float_mul (float_of_nat (unat pr)) (float_lit 0.25)) (float_lit 0.0689476)"
    by (simp add: tpms_protocol_ford_analyze_def Let_def pr_def)
  also have "float_mul (float_of_nat (unat pr)) (float_lit 0.25) = real raw * 0.25"
    unfolding pr using raw by (intro float_quarter_of_nat) simp
  finally have p: "pressure ?A = float_mul (real raw * 0.25) (float_lit 0.0689476)" .
  have p32: "pressure ?A = binary32 (real raw * 0.25 * binary32 0.0689476)"
    unfolding p by (simp only: float_mul_def float_lit_def)
  have err: "\<bar>pressure ?A - real raw * 0.25 * 0.0689476\<bar> < 1 / 10 ^ 6"
    unfolding p using raw by (intro float_psi_to_bar_error) simp_all
  have t7: "unat (data ! 5 AND 0x7f) < 2 ^ 23"
    using unat_b8_lt [of "data ! 5 AND 0x7f"] by simp
  have tv: "temperature ?A = real (unat (data ! 5 AND 0x7F)) - 56" if "\<not> bit (data ! 5) 7"
  proof -
    have "temperature ?A = float_sub (float_of_nat (unat (data ! 5 AND 0x7f))) (float_lit (real 56))"
      using that by (simp add: tpms_protocol_ford_analyze_def Let_def and_0x80_bit)
    also have "\<dots> = real (unat (data ! 5 AND 0x7f)) - real 56"
      using t7 by (intro float_sub_of_nat) simp_all
    finally show ?thesis by simp
  qed
  have ti: "temperature ?A = - 1000" if "bit (data ! 5) 7"
  proof -
    have "temperature ?A = - float_lit (of_int 1000)"
      using that by (simp add: tpms_protocol_ford_analyze_def Let_def and_0x80_bit)
    also have "float_lit (of_int 1000) = of_int 1000"
      by (intro float_lit_int) simp
    finally show ?thesis by simp
  qed
  have ex: "float_mul (float_of_nat 100) (float_lit 0.25) = 25
      \<and> pressure ?A = 14459359 / 8388608 \<and> \<bar>pressure ?A - 1.724\<bar> < 0.001"
    if "data ! 4 = 0x64" and "\<not> bit (data ! 6) 5"
  proof -
    have r: "raw = 100"
      using that by (simp add: raw_def)
    have psi: "float_mul (float_of_nat 100) (float_lit 0.25) = 25"
      using float_quarter_of_nat [of 100] by simp
    have "binary32 (real (100 :: nat) * 0.25 * binary32 0.0689476) = 14459359 / 8388608"
      by code_simp
    then have v: "pressure ?A = 14459359 / 8388608"
      unfolding p32 r .
    show ?thesis
      using psi v by simp
  qed
  show ?thesis
    using id p32 err tv ti ex unfolding raw_def by blast
qed

theorem ford_analyze_reading_witness:
  "length ford_sample_frame = 8 \<and> tpms_protocol_ford_check_checksum ford_sample_frame
   \<and> unat (id_tpms (tpms_protocol_ford_analyze generic_blank ford_sample_frame)) = 0x12345678
   \<and> pressure (tpms_protocol_ford_analyze generic_blank ford_sample_frame)
        = 14459359 / 8388608
   \<and> temperature (tpms_protocol_ford_analyze generic_blank ford_sample_frame) = 2"
proof -
  have len: "length ford_sample_frame = 8"
    by (simp add: ford_sample_frame_def)
  have sum: "tpms_protocol_ford_check_checksum ford_sample_frame"
    by (simp add: ford_sample_frame_def tpms_protocol_ford_check_checksum_def upt_rec)
  show ?thesis
    using len sum ford_analyze_reading [OF len sum, of generic_blank]
    by (simp add: ford_sample_frame_def)
qed

section \<open>What one call of a feed function does to the reading\<close>














lemma feed_edges_snoc: "feed_edges f s (es @ [e]) = f (feed_edges f s es) (fst e) (snd e)"
  by (simp add: feed_edges_def)

lemma feed_edges_take_Suc:
  "k < length es \<Longrightarrow>
     feed_edges f s (take (Suc k) es) = f (feed_edges f s (take k es)) (fst (es ! k)) (snd (es ! k))"
  by (simp add: take_Suc_conv_app_nth feed_edges_snoc)


section \<open>A Toyota frame whose pressure copies disagree\<close>

lemma toyota_mismatch_prefix_run:
  "feed_edges tpms_protocol_decoder_toyota_feed toyota_power_on toyota_mismatch_prefix
     = toyota_before_last"
  by code_simp

lemma toyota_mismatch_last:
  "tpms_protocol_decoder_toyota_feed toyota_before_last False 52 = toyota_after_last"
  by code_simp

lemma toyota_mismatch_run:
  "feed_edges tpms_protocol_decoder_toyota_feed toyota_power_on
     (toyota_mismatch_prefix @ [(False, 52)]) = toyota_after_last"
  by (simp add: feed_edges_snoc toyota_mismatch_prefix_run toyota_mismatch_last)

lemma toyota_after_last_buffer:
  "manchester_data toyota_after_last = [0, 0x12, 0x34, 0x56, 0x4E, 0x20, 0x80, 0x64, 0xF4, 0]"
  by (simp add: toyota_after_last_def toyota_power_on_def)

lemma toyota_after_last_pressures:
  "toyota_pressure1 (manchester_data toyota_after_last) = 0x9C
   \<and> toyota_pressure2 (manchester_data toyota_after_last) = 0x9B"
  unfolding toyota_after_last_buffer by code_simp

lemma toyota_after_last_crc:
  "tpms_protocol_toyota_check_crc (manchester_data toyota_after_last)"
  unfolding toyota_after_last_buffer by code_simp


section \<open>Validation gates emission\<close>



section \<open>The Toyota pressure cross-check\<close>

lemma toyota_frame_found_buffer:
  "manchester_data (toyota_frame_found i)
     = toyota_pack_bytes (decode_data (decoder i)) (manchester_data i)"
  by (simp add: toyota_frame_found_def Let_def invoke_callback_def)

lemma toyota_frame_found_mismatch:
  assumes "tpms_protocol_toyota_check_crc (manchester_data (toyota_frame_found i))"
    and "toyota_pressure1 (manchester_data (toyota_frame_found i))
           \<noteq> toyota_pressure2 (manchester_data (toyota_frame_found i))"
  shows "generic (toyota_frame_found i) =
           (generic i)\<lparr>id_tpms := be32 (manchester_data (toyota_frame_found i) ! 0)
              (manchester_data (toyota_frame_found i) ! 1)
              (manchester_data (toyota_frame_found i) ! 2)
              (manchester_data (toyota_frame_found i) ! 3)\<rparr>"
    and "callback_log (base (toyota_frame_found i)) =
           (if callback (base i) then callback_log (base i) @ [generic (toyota_frame_found i)]
            else callback_log (base i))"
  using assms unfolding toyota_frame_found_buffer
  by (simp_all add: toyota_frame_found_def Let_def invoke_callback_def
        tpms_protocol_toyota_analyze_def)

lemma toyota_feed_completes:
  assumes "parser_step (decoder s) = ToyotaDecoderStepData"
    and "DURATION_DIFF d (te_short tpms_protocol_toyota_const) < te_delta tpms_protocol_toyota_const"
    and "min_count_bit_for_found tpms_protocol_toyota_const \<le> decode_count_bit (decoder s) + 1"
  shows "tpms_protocol_decoder_toyota_feed s l d =
           toyota_frame_found (s\<lparr>decoder := subghz_protocol_blocks_add_bit (decoder s) l\<rparr>)"
  using assms
  by (simp add: tpms_protocol_decoder_toyota_feed_def toyota_feed_data_def Let_def
        subghz_protocol_blocks_add_bit_def)

text \<open>
  C10. When the call that completes a Toyota frame assembles a buffer whose CRC
  holds and whose two pressure copies differ, the sensor identifier of the stored
  reading becomes the big-endian value of bytes 0 to 3 of that buffer, while the
  pressure, the temperature, the battery flag, the raw data and the bit count keep
  the values they had before the call.
\<close>

theorem toyota_mismatch_partial_overwrite:
  assumes "parser_step (decoder s) = ToyotaDecoderStepData"
    and "DURATION_DIFF d (te_short tpms_protocol_toyota_const) < te_delta tpms_protocol_toyota_const"
    and "min_count_bit_for_found tpms_protocol_toyota_const \<le> decode_count_bit (decoder s) + 1"
    and "s' = tpms_protocol_decoder_toyota_feed s l d"
    and "tpms_protocol_toyota_check_crc (manchester_data s')"
    and "toyota_pressure1 (manchester_data s') \<noteq> toyota_pressure2 (manchester_data s')"
  shows "unat (id_tpms (generic s')) =
           unat (manchester_data s' ! 0) * 2 ^ 24 + unat (manchester_data s' ! 1) * 2 ^ 16
             + unat (manchester_data s' ! 2) * 2 ^ 8 + unat (manchester_data s' ! 3)
       \<and> pressure (generic s') = pressure (generic s)
       \<and> temperature (generic s') = temperature (generic s)
       \<and> battery_low (generic s') = battery_low (generic s)
       \<and> data_tpms (generic s') = data_tpms (generic s)
       \<and> data_count_bit (generic s') = data_count_bit (generic s)"
proof -
  let ?i = "s\<lparr>decoder := subghz_protocol_blocks_add_bit (decoder s) l\<rparr>"
  have s': "s' = toyota_frame_found ?i"
    using assms(4) toyota_feed_completes [OF assms(1-3)] by simp
  have "generic s' = (generic s)\<lparr>id_tpms := be32 (manchester_data s' ! 0) (manchester_data s' ! 1)
      (manchester_data s' ! 2) (manchester_data s' ! 3)\<rparr>"
    using toyota_frame_found_mismatch(1) [of ?i] assms(5,6) unfolding s' by simp
  then show ?thesis
    by (simp add: unat_be32)
qed

text \<open>
  The last edge of the sample stream: the identifier becomes \<^verbatim>\<open>0x00123456\<close>, the
  other members stay cleared.
\<close>

theorem toyota_mismatch_partial_overwrite_witness:
  "parser_step (decoder toyota_before_last) = ToyotaDecoderStepData
   \<and> DURATION_DIFF 52 (te_short tpms_protocol_toyota_const) < te_delta tpms_protocol_toyota_const
   \<and> min_count_bit_for_found tpms_protocol_toyota_const
        \<le> decode_count_bit (decoder toyota_before_last) + 1
   \<and> tpms_protocol_toyota_check_crc
        (manchester_data (tpms_protocol_decoder_toyota_feed toyota_before_last False 52))
   \<and> toyota_pressure1
        (manchester_data (tpms_protocol_decoder_toyota_feed toyota_before_last False 52))
       \<noteq> toyota_pressure2
        (manchester_data (tpms_protocol_decoder_toyota_feed toyota_before_last False 52))
   \<and> unat (id_tpms (generic (tpms_protocol_decoder_toyota_feed toyota_before_last False 52)))
        = 0x123456
   \<and> pressure (generic (tpms_protocol_decoder_toyota_feed toyota_before_last False 52)) = 0
   \<and> data_count_bit (generic (tpms_protocol_decoder_toyota_feed toyota_before_last False 52))
        = 0"
proof -
  have 1: "parser_step (decoder toyota_before_last) = ToyotaDecoderStepData"
    by (simp add: toyota_before_last_def toyota_power_on_def)
  have 2: "DURATION_DIFF 52 (te_short tpms_protocol_toyota_const)
      < te_delta tpms_protocol_toyota_const"
    by (simp add: DURATION_DIFF_def tpms_protocol_toyota_const_def)
  have 3: "min_count_bit_for_found tpms_protocol_toyota_const
      \<le> decode_count_bit (decoder toyota_before_last) + 1"
    by (simp add: toyota_before_last_def toyota_power_on_def tpms_protocol_toyota_const_def)
  have 5: "tpms_protocol_toyota_check_crc
      (manchester_data (tpms_protocol_decoder_toyota_feed toyota_before_last False 52))"
    unfolding toyota_mismatch_last by (rule toyota_after_last_crc)
  have 6: "toyota_pressure1
      (manchester_data (tpms_protocol_decoder_toyota_feed toyota_before_last False 52))
     \<noteq> toyota_pressure2
      (manchester_data (tpms_protocol_decoder_toyota_feed toyota_before_last False 52))"
    unfolding toyota_mismatch_last using toyota_after_last_pressures by simp
  from toyota_mismatch_partial_overwrite [OF 1 2 3 refl 5 6]
  have "unat (id_tpms (generic (tpms_protocol_decoder_toyota_feed toyota_before_last False 52))) =
      unat (manchester_data toyota_after_last ! 0) * 2 ^ 24
        + unat (manchester_data toyota_after_last ! 1) * 2 ^ 16
        + unat (manchester_data toyota_after_last ! 2) * 2 ^ 8
        + unat (manchester_data toyota_after_last ! 3)"
    and "pressure (generic (tpms_protocol_decoder_toyota_feed toyota_before_last False 52))
      = pressure (generic toyota_before_last)"
    and "data_count_bit (generic (tpms_protocol_decoder_toyota_feed toyota_before_last False 52))
      = data_count_bit (generic toyota_before_last)"
    unfolding toyota_mismatch_last by simp_all
  then show ?thesis
    using 1 2 3 5 6
    by (simp add: toyota_after_last_buffer toyota_before_last_def toyota_power_on_def
          generic_blank_def)
qed

text \<open>
  C1. Claimed: when a Toyota frame passes the CRC and its two pressure copies
  disagree, no reading is emitted and the callback is not invoked. On the sample
  stream the assembled buffer passes the CRC, its pressure copies are \<^verbatim>\<open>0x9C\<close> and
  \<^verbatim>\<open>0x9B\<close>, and the callback, not invoked before, is invoked once; the reading it
  finds carries the identifier of the rejected frame and the cleared members of the
  reading before.
\<close>

theorem toyota_mismatch_invokes_callback:
  "tpms_protocol_toyota_check_crc (manchester_data
      (feed_edges tpms_protocol_decoder_toyota_feed toyota_power_on
         (toyota_mismatch_prefix @ [(False, 52)])))
   \<and> toyota_pressure1 (manchester_data
      (feed_edges tpms_protocol_decoder_toyota_feed toyota_power_on
         (toyota_mismatch_prefix @ [(False, 52)]))) = 0x9C
   \<and> toyota_pressure2 (manchester_data
      (feed_edges tpms_protocol_decoder_toyota_feed toyota_power_on
         (toyota_mismatch_prefix @ [(False, 52)]))) = 0x9B
   \<and> callback_log (base toyota_power_on) = []
   \<and> callback_log (base
      (feed_edges tpms_protocol_decoder_toyota_feed toyota_power_on
         (toyota_mismatch_prefix @ [(False, 52)])))
       = [generic_blank\<lparr>id_tpms := 0x123456\<rparr>]"
  unfolding toyota_mismatch_run
  using toyota_after_last_crc toyota_after_last_pressures
  by (simp add: toyota_after_last_def toyota_power_on_def toyota_mismatch_reading_def)

section \<open>Reset\<close>

lemma ford_reset_then_feed:
  "parser_step (decoder (tpms_protocol_decoder_ford_feed adv
      (tpms_protocol_decoder_ford_reset s) l d)) \<noteq> FordDecoderStepReset
   \<Longrightarrow> decoder (tpms_protocol_decoder_ford_feed adv (tpms_protocol_decoder_ford_reset s) l d)
         = \<lparr>parser_step = FordDecoderStepSync, decode_data = 0, decode_count_bit = 0\<rparr>"
  by (simp add: tpms_protocol_decoder_ford_feed_def tpms_protocol_decoder_ford_reset_def
        ford_feed_reset_def split: if_splits)

lemma gm_reset_then_feed:
  "parser_step (decoder (tpms_protocol_decoder_gm_feed adv
      (tpms_protocol_decoder_gm_reset s) l d)) \<noteq> GMDecoderStepReset
   \<Longrightarrow> decoder (tpms_protocol_decoder_gm_feed adv (tpms_protocol_decoder_gm_reset s) l d)
         = \<lparr>parser_step = GMDecoderStepPreamble, decode_data = 0, decode_count_bit = 0\<rparr>"
  by (simp add: tpms_protocol_decoder_gm_feed_def tpms_protocol_decoder_gm_reset_def
        gm_feed_reset_def split: if_splits)

lemma hyundai_reset_then_feed:
  "parser_step (decoder (tpms_protocol_decoder_hyundai_feed adv
      (tpms_protocol_decoder_hyundai_reset s) l d)) \<noteq> HyundaiDecoderStepReset
   \<Longrightarrow> decoder (tpms_protocol_decoder_hyundai_feed adv
           (tpms_protocol_decoder_hyundai_reset s) l d)
         = \<lparr>parser_step = HyundaiDecoderStepPreamble, decode_data = 0, decode_count_bit = 0\<rparr>"
  by (simp add: tpms_protocol_decoder_hyundai_feed_def tpms_protocol_decoder_hyundai_reset_def
        hyundai_feed_reset_def split: if_splits)

lemma nissan_reset_then_feed:
  "parser_step (decoder (tpms_protocol_decoder_nissan_feed
      (tpms_protocol_decoder_nissan_reset s) l d)) \<noteq> NissanDecoderStepReset
   \<Longrightarrow> decoder (tpms_protocol_decoder_nissan_feed (tpms_protocol_decoder_nissan_reset s) l d)
         = \<lparr>parser_step = NissanDecoderStepPreamble, decode_data = 0, decode_count_bit = 0\<rparr>"
  by (simp add: tpms_protocol_decoder_nissan_feed_def tpms_protocol_decoder_nissan_reset_def
        nissan_feed_reset_def split: if_splits)

lemma toyota_reset_then_feed:
  "parser_step (decoder (tpms_protocol_decoder_toyota_feed
      (tpms_protocol_decoder_toyota_reset s) l d)) \<noteq> ToyotaDecoderStepReset
   \<Longrightarrow> decoder (tpms_protocol_decoder_toyota_feed (tpms_protocol_decoder_toyota_reset s) l d)
         = \<lparr>parser_step = ToyotaDecoderStepSync, decode_data = 0, decode_count_bit = 0\<rparr>"
  by (simp add: tpms_protocol_decoder_toyota_feed_def tpms_protocol_decoder_toyota_reset_def
        toyota_feed_reset_def split: if_splits)

text \<open>
  C5. Claimed: the reset operation of every decoder leaves the initial step with the
  accumulator and the bit count cleared. The Toyota decoder that has received the
  first 84 edges of the sample stream holds 71 bits; after the reset operation it
  is in the initial step and still holds them.
\<close>

theorem toyota_reset_keeps_accumulator:
  "parser_step (decoder (tpms_protocol_decoder_toyota_reset
      (feed_edges tpms_protocol_decoder_toyota_feed toyota_power_on toyota_mismatch_prefix)))
     = ToyotaDecoderStepReset
   \<and> decode_count_bit (decoder (tpms_protocol_decoder_toyota_reset
      (feed_edges tpms_protocol_decoder_toyota_feed toyota_power_on toyota_mismatch_prefix)))
     = 71
   \<and> decode_data (decoder (tpms_protocol_decoder_toyota_reset
      (feed_edges tpms_protocol_decoder_toyota_feed toyota_power_on toyota_mismatch_prefix)))
     = 0x091A2B271040327A"
  unfolding toyota_mismatch_prefix_run
  by (simp add: tpms_protocol_decoder_toyota_reset_def toyota_before_last_def
        toyota_power_on_def)

text \<open>
  C5, amended. The reset operation of every decoder, from any state, leaves the
  initial step, with the state of the line code set to its start; the accumulator
  and the bit count keep their values, and the first call of the feed operation
  that leaves the initial step afterwards clears both.
\<close>

theorem reset_returns_to_initial_step:
  "(parser_step (decoder (tpms_protocol_decoder_ford_reset ford)) = FordDecoderStepReset
    \<and> manchester_state (tpms_protocol_decoder_ford_reset ford) = ManchesterStateStart1
    \<and> decode_data (decoder (tpms_protocol_decoder_ford_reset ford))
          = decode_data (decoder ford)
    \<and> decode_count_bit (decoder (tpms_protocol_decoder_ford_reset ford))
          = decode_count_bit (decoder ford)
    \<and> (parser_step (decoder (tpms_protocol_decoder_ford_feed adv
            (tpms_protocol_decoder_ford_reset ford) l d)) \<noteq> FordDecoderStepReset
         \<longrightarrow> decoder (tpms_protocol_decoder_ford_feed adv
               (tpms_protocol_decoder_ford_reset ford) l d)
             = \<lparr>parser_step = FordDecoderStepSync, decode_data = 0, decode_count_bit = 0\<rparr>))
   \<and> (parser_step (decoder (tpms_protocol_decoder_gm_reset gm)) = GMDecoderStepReset
    \<and> manchester_state (tpms_protocol_decoder_gm_reset gm) = ManchesterStateStart1
    \<and> decode_data (decoder (tpms_protocol_decoder_gm_reset gm)) = decode_data (decoder gm)
    \<and> decode_count_bit (decoder (tpms_protocol_decoder_gm_reset gm))
          = decode_count_bit (decoder gm)
    \<and> (parser_step (decoder (tpms_protocol_decoder_gm_feed adv
            (tpms_protocol_decoder_gm_reset gm) l d)) \<noteq> GMDecoderStepReset
         \<longrightarrow> decoder (tpms_protocol_decoder_gm_feed adv
               (tpms_protocol_decoder_gm_reset gm) l d)
             = \<lparr>parser_step = GMDecoderStepPreamble, decode_data = 0, decode_count_bit = 0\<rparr>))
   \<and> (parser_step (decoder (tpms_protocol_decoder_hyundai_reset hyundai))
          = HyundaiDecoderStepReset
    \<and> manchester_state (tpms_protocol_decoder_hyundai_reset hyundai) = ManchesterStateStart1
    \<and> decode_data (decoder (tpms_protocol_decoder_hyundai_reset hyundai))
          = decode_data (decoder hyundai)
    \<and> decode_count_bit (decoder (tpms_protocol_decoder_hyundai_reset hyundai))
          = decode_count_bit (decoder hyundai)
    \<and> (parser_step (decoder (tpms_protocol_decoder_hyundai_feed adv
            (tpms_protocol_decoder_hyundai_reset hyundai) l d)) \<noteq> HyundaiDecoderStepReset
         \<longrightarrow> decoder (tpms_protocol_decoder_hyundai_feed adv
               (tpms_protocol_decoder_hyundai_reset hyundai) l d)
             = \<lparr>parser_step = HyundaiDecoderStepPreamble, decode_data = 0,
                 decode_count_bit = 0\<rparr>))
   \<and> (parser_step (decoder (tpms_protocol_decoder_nissan_reset nissan))
          = NissanDecoderStepReset
    \<and> \<not> last_level (tpms_protocol_decoder_nissan_reset nissan)
    \<and> last_duration (tpms_protocol_decoder_nissan_reset nissan) = 0
    \<and> decode_data (decoder (tpms_protocol_decoder_nissan_reset nissan))
          = decode_data (decoder nissan)
    \<and> decode_count_bit (decoder (tpms_protocol_decoder_nissan_reset nissan))
          = decode_count_bit (decoder nissan)
    \<and> (parser_step (decoder (tpms_protocol_decoder_nissan_feed
            (tpms_protocol_decoder_nissan_reset nissan) l d)) \<noteq> NissanDecoderStepReset
         \<longrightarrow> decoder (tpms_protocol_decoder_nissan_feed
               (tpms_protocol_decoder_nissan_reset nissan) l d)
             = \<lparr>parser_step = NissanDecoderStepPreamble, decode_data = 0,
                 decode_count_bit = 0\<rparr>))
   \<and> (parser_step (decoder (tpms_protocol_decoder_toyota_reset toyota))
          = ToyotaDecoderStepReset
    \<and> manchester_bit_count (tpms_protocol_decoder_toyota_reset toyota) = 0
    \<and> looking_for_sync (tpms_protocol_decoder_toyota_reset toyota)
    \<and> sync_found_bits (tpms_protocol_decoder_toyota_reset toyota) = 0
    \<and> decode_data (decoder (tpms_protocol_decoder_toyota_reset toyota))
          = decode_data (decoder toyota)
    \<and> decode_count_bit (decoder (tpms_protocol_decoder_toyota_reset toyota))
          = decode_count_bit (decoder toyota)
    \<and> (parser_step (decoder (tpms_protocol_decoder_toyota_feed
            (tpms_protocol_decoder_toyota_reset toyota) l d)) \<noteq> ToyotaDecoderStepReset
         \<longrightarrow> decoder (tpms_protocol_decoder_toyota_feed
               (tpms_protocol_decoder_toyota_reset toyota) l d)
             = \<lparr>parser_step = ToyotaDecoderStepSync, decode_data = 0,
                 decode_count_bit = 0\<rparr>))"
proof (intro conjI impI)
  show "parser_step (decoder (tpms_protocol_decoder_ford_feed adv
            (tpms_protocol_decoder_ford_reset ford) l d)) \<noteq> FordDecoderStepReset
    \<Longrightarrow> decoder (tpms_protocol_decoder_ford_feed adv
               (tpms_protocol_decoder_ford_reset ford) l d)
             = \<lparr>parser_step = FordDecoderStepSync, decode_data = 0, decode_count_bit = 0\<rparr>"
    by (rule ford_reset_then_feed)
  show "parser_step (decoder (tpms_protocol_decoder_gm_feed adv
            (tpms_protocol_decoder_gm_reset gm) l d)) \<noteq> GMDecoderStepReset
    \<Longrightarrow> decoder (tpms_protocol_decoder_gm_feed adv (tpms_protocol_decoder_gm_reset gm) l d)
             = \<lparr>parser_step = GMDecoderStepPreamble, decode_data = 0, decode_count_bit = 0\<rparr>"
    by (rule gm_reset_then_feed)
  show "parser_step (decoder (tpms_protocol_decoder_hyundai_feed adv
            (tpms_protocol_decoder_hyundai_reset hyundai) l d)) \<noteq> HyundaiDecoderStepReset
    \<Longrightarrow> decoder (tpms_protocol_decoder_hyundai_feed adv
               (tpms_protocol_decoder_hyundai_reset hyundai) l d)
             = \<lparr>parser_step = HyundaiDecoderStepPreamble, decode_data = 0,
                 decode_count_bit = 0\<rparr>"
    by (rule hyundai_reset_then_feed)
  show "parser_step (decoder (tpms_protocol_decoder_nissan_feed
            (tpms_protocol_decoder_nissan_reset nissan) l d)) \<noteq> NissanDecoderStepReset
    \<Longrightarrow> decoder (tpms_protocol_decoder_nissan_feed
               (tpms_protocol_decoder_nissan_reset nissan) l d)
             = \<lparr>parser_step = NissanDecoderStepPreamble, decode_data = 0,
                 decode_count_bit = 0\<rparr>"
    by (rule nissan_reset_then_feed)
  show "parser_step (decoder (tpms_protocol_decoder_toyota_feed
            (tpms_protocol_decoder_toyota_reset toyota) l d)) \<noteq> ToyotaDecoderStepReset
    \<Longrightarrow> decoder (tpms_protocol_decoder_toyota_feed
               (tpms_protocol_decoder_toyota_reset toyota) l d)
             = \<lparr>parser_step = ToyotaDecoderStepSync, decode_data = 0,
                 decode_count_bit = 0\<rparr>"
    by (rule toyota_reset_then_feed)
qed (simp_all add: tpms_protocol_decoder_ford_reset_def tpms_protocol_decoder_gm_reset_def
       tpms_protocol_decoder_hyundai_reset_def tpms_protocol_decoder_nissan_reset_def
       tpms_protocol_decoder_toyota_reset_def)

text \<open>
  The Toyota decoder holding 71 bits, reset and then fed a high edge of nominal
  duration: the sync search starts with an empty accumulator.
\<close>

theorem reset_returns_to_initial_step_witness:
  "parser_step (decoder (tpms_protocol_decoder_toyota_feed
      (tpms_protocol_decoder_toyota_reset toyota_before_last) True 52))
     \<noteq> ToyotaDecoderStepReset
   \<and> decoder (tpms_protocol_decoder_toyota_feed
      (tpms_protocol_decoder_toyota_reset toyota_before_last) True 52)
     = \<lparr>parser_step = ToyotaDecoderStepSync, decode_data = 0, decode_count_bit = 0\<rparr>
   \<and> decode_count_bit (decoder (tpms_protocol_decoder_toyota_reset toyota_before_last)) = 71"
proof -
  have left: "parser_step (decoder (tpms_protocol_decoder_toyota_feed
      (tpms_protocol_decoder_toyota_reset toyota_before_last) True 52))
     \<noteq> ToyotaDecoderStepReset"
    by code_simp
  have kept: "decode_count_bit (decoder toyota_before_last) = 71"
    by (simp add: toyota_before_last_def toyota_power_on_def)
  from reset_returns_to_initial_step [where toyota = toyota_before_last and l = True
      and d = 52] left kept
  show ?thesis by simp
qed

section \<open>Deserialization of a record\<close>

text \<open>
  C9. The deserialize operation of the Ford, GM, Hyundai, Nissan and Toyota decoders
  returns a status other than success for every record whose bit count is not the
  fixed width of the protocol (64, 72, 80, 72 and 72 bits); so does the shared
  function they call, for whatever width a decoder passes to it.
\<close>

theorem deserialize_rejects_other_bit_counts:
  "(record_bit ff \<noteq> Some 64
      \<longrightarrow> fst (tpms_protocol_decoder_ford_deserialize ford ff) \<noteq> SubGhzProtocolStatusOk)
   \<and> (record_bit ff \<noteq> Some 72
      \<longrightarrow> fst (tpms_protocol_decoder_gm_deserialize gm ff) \<noteq> SubGhzProtocolStatusOk)
   \<and> (record_bit ff \<noteq> Some 80
      \<longrightarrow> fst (tpms_protocol_decoder_hyundai_deserialize hyundai ff) \<noteq> SubGhzProtocolStatusOk)
   \<and> (record_bit ff \<noteq> Some 72
      \<longrightarrow> fst (tpms_protocol_decoder_nissan_deserialize nissan ff) \<noteq> SubGhzProtocolStatusOk)
   \<and> (record_bit ff \<noteq> Some 72
      \<longrightarrow> fst (tpms_protocol_decoder_toyota_deserialize toyota ff) \<noteq> SubGhzProtocolStatusOk)
   \<and> (record_bit ff \<noteq> Some (unat width)
      \<longrightarrow> fst (tpms_block_generic_deserialize_check_count_bit g ff width)
            \<noteq> SubGhzProtocolStatusOk)"
  by (auto simp add: tpms_protocol_decoder_ford_deserialize_def
        tpms_protocol_decoder_gm_deserialize_def tpms_protocol_decoder_hyundai_deserialize_def
        tpms_protocol_decoder_nissan_deserialize_def tpms_protocol_decoder_toyota_deserialize_def
        tpms_block_generic_deserialize_check_count_bit_def
        tpms_protocol_ford_const_def tpms_protocol_gm_const_def tpms_protocol_hyundai_const_def
        tpms_protocol_nissan_const_def tpms_protocol_toyota_const_def
        split: option.splits prod.splits if_splits)

text \<open>
  The Ford decoder rejects the record of 72 bits and accepts the record of 64 bits.
\<close>

theorem deserialize_rejects_other_bit_counts_witness:
  "record_bit record_72 \<noteq> Some 64
   \<and> fst (tpms_protocol_decoder_ford_deserialize ford_power_on record_72)
         \<noteq> SubGhzProtocolStatusOk
   \<and> fst (tpms_protocol_decoder_ford_deserialize ford_power_on record_64)
         = SubGhzProtocolStatusOk"
proof -
  have other: "record_bit record_72 \<noteq> Some 64"
    by (simp add: record_72_def)
  from deserialize_rejects_other_bit_counts [where ff = record_72 and ford = ford_power_on]
    other
  have "fst (tpms_protocol_decoder_ford_deserialize ford_power_on record_72)
         \<noteq> SubGhzProtocolStatusOk"
    by blast
  moreover have "fst (tpms_protocol_decoder_ford_deserialize ford_power_on record_64)
         = SubGhzProtocolStatusOk"
    by (simp add: tpms_protocol_decoder_ford_deserialize_def record_64_def
          tpms_block_generic_deserialize_check_count_bit_def tpms_protocol_ford_const_def)
  ultimately show ?thesis using other by simp
qed

section \<open>The pulse widths of the Nissan decoder\<close>






lemma nissan_long_pulse_run:
  "feed_edges tpms_protocol_decoder_nissan_feed nissan_power_on (take 2 nissan_long_pulse)
     = nissan_power_on\<lparr>decoder := \<lparr>parser_step = NissanDecoderStepPreamble, decode_data = 0,
         decode_count_bit = 0\<rparr>, last_level := True, last_duration := 200\<rparr>"
  by code_simp




section \<open>The window of the sync search\<close>

text \<open>
  C3. Claimed: the sync search compares the most recent bits of the accumulator with
  the sync constant. Fed the sixteen sync bits first, the Ford decoder moves to the
  data state. Fed one 0 bit and then the sixteen sync bits, it holds 17 bits of
  which the most recent sixteen are \<^verbatim>\<open>0xAAA9\<close>, and it is still searching: the test
  reads the sixteen oldest bits.
\<close>

theorem ford_sync_compares_oldest_bits:
  "parser_step (decoder (feed_edges (tpms_protocol_decoder_ford_feed manchester_two_phase)
      ford_power_on ford_sync_first)) = FordDecoderStepData
   \<and> decoder (feed_edges (tpms_protocol_decoder_ford_feed manchester_two_phase)
      ford_power_on ford_sync_late)
       = \<lparr>parser_step = FordDecoderStepSync, decode_data = 0xAAA9, decode_count_bit = 17\<rparr>
   \<and> take_bit 16 (decode_data (decoder
        (feed_edges (tpms_protocol_decoder_ford_feed manchester_two_phase)
           ford_power_on ford_sync_late))) = 0xAAA9
   \<and> \<not> ford_sync_found (decoder
        (feed_edges (tpms_protocol_decoder_ford_feed manchester_two_phase)
           ford_power_on ford_sync_late))"
  by code_simp

section \<open>The overflow ceiling of the sync search\<close>

lemma add_bit_step: "parser_step (subghz_protocol_blocks_add_bit dec b) = parser_step dec"
  by (simp add: subghz_protocol_blocks_add_bit_def)

lemma add_bit_count:
  "decode_count_bit (subghz_protocol_blocks_add_bit dec b) = decode_count_bit dec + 1"
  by (simp add: subghz_protocol_blocks_add_bit_def)

lemma unat_count_succ: "unat (c :: 16 word) \<le> 40 \<Longrightarrow> unat (c + 1) = unat c + 1"
  by (simp add: unat_word_ariths)

lemma ford_frame_found_step:
  "parser_step (decoder (ford_frame_found i)) = FordDecoderStepReset"
  by (simp add: ford_frame_found_def Let_def)

lemma ford_sync_enter:
  assumes "parser_step (decoder s) \<noteq> FordDecoderStepSync"
    and "parser_step (decoder (tpms_protocol_decoder_ford_feed adv s l d)) = FordDecoderStepSync"
  shows "decode_count_bit (decoder (tpms_protocol_decoder_ford_feed adv s l d)) = 0"
proof (cases "parser_step (decoder s)")
  case FordDecoderStepReset
  with assms(2) show ?thesis
    by (simp add: tpms_protocol_decoder_ford_feed_def ford_feed_reset_def split: if_splits)
next
  case FordDecoderStepSync
  with assms(1) show ?thesis by simp
next
  case FordDecoderStepData
  with assms(2) show ?thesis
    by (simp add: tpms_protocol_decoder_ford_feed_def ford_feed_data_def Let_def
          ford_frame_found_step add_bit_step split: if_splits option.splits)
qed

lemma ford_sync_stay:
  assumes "parser_step (decoder s) = FordDecoderStepSync"
    and "unat (decode_count_bit (decoder s)) \<le> 32"
    and "parser_step (decoder (tpms_protocol_decoder_ford_feed adv s l d)) = FordDecoderStepSync"
  shows "unat (decode_count_bit (decoder (tpms_protocol_decoder_ford_feed adv s l d)))
           = unat (decode_count_bit (decoder s)) + (if (\<lambda>e. True) (l, d) then 1 else 0)
       \<and> unat (decode_count_bit (decoder (tpms_protocol_decoder_ford_feed adv s l d))) \<le> 32"
proof -
  have succ: "unat (decode_count_bit (decoder s) + 1) = unat (decode_count_bit (decoder s)) + 1"
    using assms(2) by (simp add: unat_count_succ)
  show ?thesis
    using assms(3)
    by (simp add: tpms_protocol_decoder_ford_feed_def assms(1) ford_feed_sync_def Let_def
          add_bit_step add_bit_count word_le_nat_alt word_less_nat_alt succ
          split: if_splits)
qed

lemma ford_sync_leave:
  assumes "parser_step (decoder s) = FordDecoderStepSync"
    and "parser_step (decoder (tpms_protocol_decoder_ford_feed adv s l d)) \<noteq> FordDecoderStepSync"
  shows "parser_step (decoder (tpms_protocol_decoder_ford_feed adv s l d)) = FordDecoderStepReset
       \<or> (\<exists>bit_value. ford_sync_found (subghz_protocol_blocks_add_bit (decoder s) bit_value))"
proof -
  have "parser_step (decoder (tpms_protocol_decoder_ford_feed adv s l d)) = FordDecoderStepReset
       \<or> ford_sync_found (subghz_protocol_blocks_add_bit (decoder s) l)"
    using assms(2)
    by (simp add: tpms_protocol_decoder_ford_feed_def assms(1) ford_feed_sync_def Let_def
          ford_sync_found_def add_bit_step split: if_splits)
  then show ?thesis by blast
qed

lemma gm_frame_found_step:
  "parser_step (decoder (gm_frame_found i)) = GMDecoderStepReset"
  by (simp add: gm_frame_found_def Let_def)

lemma gm_sync_enter:
  assumes "parser_step (decoder s) \<noteq> GMDecoderStepPreamble"
    and "parser_step (decoder (tpms_protocol_decoder_gm_feed adv s l d)) = GMDecoderStepPreamble"
  shows "decode_count_bit (decoder (tpms_protocol_decoder_gm_feed adv s l d)) = 0"
proof (cases "parser_step (decoder s)")
  case GMDecoderStepReset
  with assms(2) show ?thesis
    by (simp add: tpms_protocol_decoder_gm_feed_def gm_feed_reset_def split: if_splits)
next
  case GMDecoderStepPreamble
  with assms(1) show ?thesis by simp
next
  case GMDecoderStepSync
  with assms(2) show ?thesis
    by (simp add: tpms_protocol_decoder_gm_feed_def)
next
  case GMDecoderStepData
  with assms(2) show ?thesis
    by (simp add: tpms_protocol_decoder_gm_feed_def gm_feed_data_def Let_def
          gm_frame_found_step add_bit_step split: if_splits option.splits)
qed

lemma gm_sync_stay:
  assumes "parser_step (decoder s) = GMDecoderStepPreamble"
    and "unat (decode_count_bit (decoder s)) \<le> 32"
    and "parser_step (decoder (tpms_protocol_decoder_gm_feed adv s l d)) = GMDecoderStepPreamble"
  shows "unat (decode_count_bit (decoder (tpms_protocol_decoder_gm_feed adv s l d)))
           = unat (decode_count_bit (decoder s)) + (if (\<lambda>e. True) (l, d) then 1 else 0)
       \<and> unat (decode_count_bit (decoder (tpms_protocol_decoder_gm_feed adv s l d))) \<le> 32"
proof -
  have succ: "unat (decode_count_bit (decoder s) + 1) = unat (decode_count_bit (decoder s)) + 1"
    using assms(2) by (simp add: unat_count_succ)
  show ?thesis
    using assms(3)
    by (simp add: tpms_protocol_decoder_gm_feed_def assms(1) gm_feed_preamble_def Let_def
          add_bit_step add_bit_count word_le_nat_alt word_less_nat_alt succ
          split: if_splits)
qed

lemma gm_sync_leave:
  assumes "parser_step (decoder s) = GMDecoderStepPreamble"
    and "parser_step (decoder (tpms_protocol_decoder_gm_feed adv s l d)) \<noteq> GMDecoderStepPreamble"
  shows "parser_step (decoder (tpms_protocol_decoder_gm_feed adv s l d)) = GMDecoderStepReset
       \<or> (\<exists>bit_value. gm_sync_found (subghz_protocol_blocks_add_bit (decoder s) bit_value))"
proof -
  have "parser_step (decoder (tpms_protocol_decoder_gm_feed adv s l d)) = GMDecoderStepReset
       \<or> gm_sync_found (subghz_protocol_blocks_add_bit (decoder s) l)"
    using assms(2)
    by (simp add: tpms_protocol_decoder_gm_feed_def assms(1) gm_feed_preamble_def Let_def
          gm_sync_found_def add_bit_step split: if_splits)
  then show ?thesis by blast
qed

lemma hyundai_frame_found_step:
  "parser_step (decoder (hyundai_frame_found i)) = HyundaiDecoderStepReset"
  by (simp add: hyundai_frame_found_def Let_def)

lemma hyundai_sync_enter:
  assumes "parser_step (decoder s) \<noteq> HyundaiDecoderStepPreamble"
    and "parser_step (decoder (tpms_protocol_decoder_hyundai_feed adv s l d)) = HyundaiDecoderStepPreamble"
  shows "decode_count_bit (decoder (tpms_protocol_decoder_hyundai_feed adv s l d)) = 0"
proof (cases "parser_step (decoder s)")
  case HyundaiDecoderStepReset
  with assms(2) show ?thesis
    by (simp add: tpms_protocol_decoder_hyundai_feed_def hyundai_feed_reset_def split: if_splits)
next
  case HyundaiDecoderStepPreamble
  with assms(1) show ?thesis by simp
next
  case HyundaiDecoderStepData
  with assms(2) show ?thesis
    by (simp add: tpms_protocol_decoder_hyundai_feed_def hyundai_feed_data_def Let_def
          hyundai_frame_found_step add_bit_step split: if_splits option.splits)
qed

lemma hyundai_sync_stay:
  assumes "parser_step (decoder s) = HyundaiDecoderStepPreamble"
    and "unat (decode_count_bit (decoder s)) \<le> 40"
    and "parser_step (decoder (tpms_protocol_decoder_hyundai_feed adv s l d)) = HyundaiDecoderStepPreamble"
  shows "unat (decode_count_bit (decoder (tpms_protocol_decoder_hyundai_feed adv s l d)))
           = unat (decode_count_bit (decoder s)) + (if (\<lambda>e. True) (l, d) then 1 else 0)
       \<and> unat (decode_count_bit (decoder (tpms_protocol_decoder_hyundai_feed adv s l d))) \<le> 40"
proof -
  have succ: "unat (decode_count_bit (decoder s) + 1) = unat (decode_count_bit (decoder s)) + 1"
    using assms(2) by (simp add: unat_count_succ)
  show ?thesis
    using assms(3)
    by (simp add: tpms_protocol_decoder_hyundai_feed_def assms(1) hyundai_feed_preamble_def Let_def
          add_bit_step add_bit_count word_le_nat_alt word_less_nat_alt succ
          split: if_splits)
qed

lemma hyundai_sync_leave:
  assumes "parser_step (decoder s) = HyundaiDecoderStepPreamble"
    and "parser_step (decoder (tpms_protocol_decoder_hyundai_feed adv s l d)) \<noteq> HyundaiDecoderStepPreamble"
  shows "parser_step (decoder (tpms_protocol_decoder_hyundai_feed adv s l d)) = HyundaiDecoderStepReset
       \<or> (\<exists>bit_value. hyundai_sync_found (subghz_protocol_blocks_add_bit (decoder s) bit_value))"
proof -
  have "parser_step (decoder (tpms_protocol_decoder_hyundai_feed adv s l d)) = HyundaiDecoderStepReset
       \<or> hyundai_sync_found (subghz_protocol_blocks_add_bit (decoder s) l)"
    using assms(2)
    by (simp add: tpms_protocol_decoder_hyundai_feed_def assms(1) hyundai_feed_preamble_def Let_def
          hyundai_sync_found_def add_bit_step split: if_splits)
  then show ?thesis by blast
qed

lemma toyota_frame_found_step:
  "parser_step (decoder (toyota_frame_found i)) = ToyotaDecoderStepReset"
  by (simp add: toyota_frame_found_def Let_def)

lemma toyota_sync_enter:
  assumes "parser_step (decoder s) \<noteq> ToyotaDecoderStepSync"
    and "parser_step (decoder (tpms_protocol_decoder_toyota_feed s l d)) = ToyotaDecoderStepSync"
  shows "decode_count_bit (decoder (tpms_protocol_decoder_toyota_feed s l d)) = 0"
proof (cases "parser_step (decoder s)")
  case ToyotaDecoderStepReset
  with assms(2) show ?thesis
    by (simp add: tpms_protocol_decoder_toyota_feed_def toyota_feed_reset_def split: if_splits)
next
  case ToyotaDecoderStepSync
  with assms(1) show ?thesis by simp
next
  case ToyotaDecoderStepData
  with assms(2) show ?thesis
    by (simp add: tpms_protocol_decoder_toyota_feed_def toyota_feed_data_def Let_def
          toyota_frame_found_step add_bit_step split: if_splits option.splits)
qed

lemma toyota_sync_stay:
  assumes "parser_step (decoder s) = ToyotaDecoderStepSync"
    and "unat (decode_count_bit (decoder s)) \<le> 24"
    and "parser_step (decoder (tpms_protocol_decoder_toyota_feed s l d)) = ToyotaDecoderStepSync"
  shows "unat (decode_count_bit (decoder (tpms_protocol_decoder_toyota_feed s l d)))
           = unat (decode_count_bit (decoder s)) + (if (\<lambda>e. True) (l, d) then 1 else 0)
       \<and> unat (decode_count_bit (decoder (tpms_protocol_decoder_toyota_feed s l d))) \<le> 24"
proof -
  have succ: "unat (decode_count_bit (decoder s) + 1) = unat (decode_count_bit (decoder s)) + 1"
    using assms(2) by (simp add: unat_count_succ)
  show ?thesis
    using assms(3)
    by (simp add: tpms_protocol_decoder_toyota_feed_def assms(1) toyota_feed_sync_def Let_def
          add_bit_step add_bit_count word_le_nat_alt word_less_nat_alt succ
          split: if_splits)
qed

lemma toyota_sync_leave:
  assumes "parser_step (decoder s) = ToyotaDecoderStepSync"
    and "parser_step (decoder (tpms_protocol_decoder_toyota_feed s l d)) \<noteq> ToyotaDecoderStepSync"
  shows "parser_step (decoder (tpms_protocol_decoder_toyota_feed s l d)) = ToyotaDecoderStepReset
       \<or> (\<exists>bit_value. toyota_sync_found (subghz_protocol_blocks_add_bit (decoder s) bit_value))"
proof -
  have "parser_step (decoder (tpms_protocol_decoder_toyota_feed s l d)) = ToyotaDecoderStepReset
       \<or> toyota_sync_found (subghz_protocol_blocks_add_bit (decoder s) l)"
    using assms(2)
    by (simp add: tpms_protocol_decoder_toyota_feed_def assms(1) toyota_feed_sync_def Let_def
          toyota_sync_found_def add_bit_step split: if_splits)
  then show ?thesis by blast
qed

lemma nissan_frame_found_step:
  "parser_step (decoder (nissan_frame_found i)) = NissanDecoderStepReset"
  by (simp add: nissan_frame_found_def Let_def)

lemma nissan_sync_enter:
  assumes "parser_step (decoder s) \<noteq> NissanDecoderStepPreamble"
    and "parser_step (decoder (tpms_protocol_decoder_nissan_feed s l d)) = NissanDecoderStepPreamble"
  shows "decode_count_bit (decoder (tpms_protocol_decoder_nissan_feed s l d)) = 0"
proof (cases "parser_step (decoder s)")
  case NissanDecoderStepReset
  with assms(2) show ?thesis
    by (simp add: tpms_protocol_decoder_nissan_feed_def nissan_feed_reset_def split: if_splits)
next
  case NissanDecoderStepPreamble
  with assms(1) show ?thesis by simp
next
  case NissanDecoderStepData
  with assms(2) show ?thesis
    by (simp add: tpms_protocol_decoder_nissan_feed_def nissan_feed_data_def Let_def
          nissan_frame_found_step add_bit_step split: if_splits option.splits)
qed

lemma nissan_sync_search_stay:
  assumes "parser_step (decoder i) = NissanDecoderStepPreamble"
    and "unat (decode_count_bit (decoder i)) \<le> 41"
    and "parser_step (decoder (nissan_sync_search i)) = NissanDecoderStepPreamble"
  shows "decode_count_bit (decoder (nissan_sync_search i)) = decode_count_bit (decoder i)
       \<and> unat (decode_count_bit (decoder i)) \<le> 40"
  using assms
  by (simp add: nissan_sync_search_def Let_def word_le_nat_alt word_less_nat_alt
        split: if_splits)

lemma nissan_sync_search_leave:
  assumes "parser_step (decoder i) = NissanDecoderStepPreamble"
    and "parser_step (decoder (nissan_sync_search i)) \<noteq> NissanDecoderStepPreamble"
  shows "parser_step (decoder (nissan_sync_search i)) = NissanDecoderStepReset
       \<or> nissan_sync_found (decoder i)"
  using assms
  by (simp add: nissan_sync_search_def Let_def nissan_sync_found_def split: if_splits)

lemma nissan_sync_stay:
  assumes "parser_step (decoder s) = NissanDecoderStepPreamble"
    and "unat (decode_count_bit (decoder s)) \<le> 40"
    and "parser_step (decoder (tpms_protocol_decoder_nissan_feed s l d))
           = NissanDecoderStepPreamble"
  shows "unat (decode_count_bit (decoder (tpms_protocol_decoder_nissan_feed s l d)))
           = unat (decode_count_bit (decoder s)) + (if (\<lambda>e. \<not> fst e) (l, d) then 1 else 0)
       \<and> unat (decode_count_bit (decoder (tpms_protocol_decoder_nissan_feed s l d))) \<le> 40"
proof (cases l)
  case True
  then show ?thesis
    using assms(2)
    by (simp add: tpms_protocol_decoder_nissan_feed_def assms(1) nissan_feed_preamble_def)
next
  case False
  show ?thesis
  proof (cases "nissan_pwm_bit (last_duration s)")
    case None
    with False assms(3) show ?thesis
      by (simp add: tpms_protocol_decoder_nissan_feed_def assms(1) nissan_feed_preamble_def)
  next
    case (Some b)
    let ?i = "s\<lparr>decoder := subghz_protocol_blocks_add_bit (decoder s) b\<rparr>"
    have feed: "tpms_protocol_decoder_nissan_feed s l d
        = (nissan_sync_search ?i)\<lparr>last_level := l, last_duration := d\<rparr>"
      using False Some
      by (simp add: tpms_protocol_decoder_nissan_feed_def assms(1) nissan_feed_preamble_def
            Let_def)
    have succ: "unat (decode_count_bit (decoder ?i)) = unat (decode_count_bit (decoder s)) + 1"
      using assms(2) by (simp add: subghz_protocol_blocks_add_bit_def unat_count_succ)
    have step: "parser_step (decoder ?i) = NissanDecoderStepPreamble"
      by (simp add: subghz_protocol_blocks_add_bit_def assms(1))
    have "parser_step (decoder (nissan_sync_search ?i)) = NissanDecoderStepPreamble"
      using assms(3) unfolding feed by simp
    from nissan_sync_search_stay [OF step _ this] succ assms(2)
    have "decode_count_bit (decoder (nissan_sync_search ?i)) = decode_count_bit (decoder ?i)
       \<and> unat (decode_count_bit (decoder ?i)) \<le> 40"
      by simp
    with succ False show ?thesis
      unfolding feed by simp
  qed
qed

lemma nissan_sync_leave:
  assumes "parser_step (decoder s) = NissanDecoderStepPreamble"
    and "parser_step (decoder (tpms_protocol_decoder_nissan_feed s l d))
           \<noteq> NissanDecoderStepPreamble"
  shows "parser_step (decoder (tpms_protocol_decoder_nissan_feed s l d))
           = NissanDecoderStepReset
       \<or> (\<exists>bit_value. nissan_sync_found
             (subghz_protocol_blocks_add_bit (decoder s) bit_value))"
proof (cases l)
  case True
  with assms(2) show ?thesis
    by (simp add: tpms_protocol_decoder_nissan_feed_def assms(1) nissan_feed_preamble_def)
next
  case False
  show ?thesis
  proof (cases "nissan_pwm_bit (last_duration s)")
    case None
    with False show ?thesis
      by (simp add: tpms_protocol_decoder_nissan_feed_def assms(1) nissan_feed_preamble_def)
  next
    case (Some b)
    let ?i = "s\<lparr>decoder := subghz_protocol_blocks_add_bit (decoder s) b\<rparr>"
    have feed: "tpms_protocol_decoder_nissan_feed s l d
        = (nissan_sync_search ?i)\<lparr>last_level := l, last_duration := d\<rparr>"
      using False Some
      by (simp add: tpms_protocol_decoder_nissan_feed_def assms(1) nissan_feed_preamble_def
            Let_def)
    have step: "parser_step (decoder ?i) = NissanDecoderStepPreamble"
      by (simp add: subghz_protocol_blocks_add_bit_def assms(1))
    have "parser_step (decoder (nissan_sync_search ?i)) \<noteq> NissanDecoderStepPreamble"
      using assms(2) unfolding feed by simp
    from nissan_sync_search_leave [OF step this]
    have "parser_step (decoder (tpms_protocol_decoder_nissan_feed s l d))
           = NissanDecoderStepReset
       \<or> nissan_sync_found (subghz_protocol_blocks_add_bit (decoder s) b)"
      unfolding feed by simp
    then show ?thesis by blast
  qed
qed

lemma sync_search_from_steps:
  fixes feed :: "('step, 'more) TPMSProtocolDecoder_scheme \<Rightarrow> bool \<Rightarrow> 32 word
      \<Rightarrow> ('step, 'more) TPMSProtocolDecoder_scheme"
  assumes start: "parser_step (decoder s) = sync
        \<longrightarrow> unat (decode_count_bit (decoder s)) \<le> limit"
    and enter: "\<And>t l d. parser_step (decoder t) \<noteq> sync
        \<Longrightarrow> parser_step (decoder (feed t l d)) = sync
        \<Longrightarrow> decode_count_bit (decoder (feed t l d)) = 0"
    and stay: "\<And>t l d. parser_step (decoder t) = sync
        \<Longrightarrow> unat (decode_count_bit (decoder t)) \<le> limit
        \<Longrightarrow> parser_step (decoder (feed t l d)) = sync
        \<Longrightarrow> unat (decode_count_bit (decoder (feed t l d)))
              = unat (decode_count_bit (decoder t)) + (if carries (l, d) then 1 else 0)
            \<and> unat (decode_count_bit (decoder (feed t l d))) \<le> limit"
    and leave: "\<And>t l d. parser_step (decoder t) = sync
        \<Longrightarrow> parser_step (decoder (feed t l d)) \<noteq> sync
        \<Longrightarrow> parser_step (decoder (feed t l d)) = reset
            \<or> (\<exists>bit_value. found (subghz_protocol_blocks_add_bit (decoder t) bit_value))"
  shows "sync_search_bounded feed sync reset limit carries found s es"
proof -
  have inv_step: "parser_step (decoder (feed t l d)) = sync
      \<longrightarrow> unat (decode_count_bit (decoder (feed t l d))) \<le> limit"
    if "parser_step (decoder t) = sync \<longrightarrow> unat (decode_count_bit (decoder t)) \<le> limit"
    for t l d
  proof (cases "parser_step (decoder t) = sync")
    case True
    with that stay [of t l d] show ?thesis by blast
  next
    case False
    with enter [of t l d] show ?thesis by simp
  qed
  have inv_run: "parser_step (decoder (feed_edges feed s xs)) = sync
      \<longrightarrow> unat (decode_count_bit (decoder (feed_edges feed s xs))) \<le> limit" for xs
  proof (induction xs rule: rev_induct)
    case Nil
    show ?case using start by (simp add: feed_edges_def)
  next
    case (snoc e xs)
    show ?case
      unfolding feed_edges_snoc by (rule inv_step) (rule snoc.IH)
  qed
  have part1: "\<forall>k \<le> length es.
      let t = feed_edges feed s (take k es)
      in parser_step (decoder t) = sync \<longrightarrow> unat (decode_count_bit (decoder t)) \<le> limit"
    using inv_run by (simp add: Let_def)
  have count: "(\<forall>k \<le> length xs. parser_step (decoder (feed_edges feed s (take k xs))) = sync)
      \<longrightarrow> unat (decode_count_bit (decoder (feed_edges feed s xs)))
            = unat (decode_count_bit (decoder s)) + length (filter carries xs)" for xs
  proof (induction xs rule: rev_induct)
    case Nil
    show ?case by (simp add: feed_edges_def)
  next
    case (snoc e xs)
    show ?case
    proof
      assume all: "\<forall>k \<le> length (xs @ [e]).
        parser_step (decoder (feed_edges feed s (take k (xs @ [e])))) = sync"
      have "parser_step (decoder (feed_edges feed s (take k xs))) = sync"
        if "k \<le> length xs" for k
        using all [rule_format, of k] that by simp
      with snoc.IH
      have before: "unat (decode_count_bit (decoder (feed_edges feed s xs)))
          = unat (decode_count_bit (decoder s)) + length (filter carries xs)"
        by simp
      have in_sync: "parser_step (decoder (feed_edges feed s xs)) = sync"
        using all [rule_format, of "length xs"] by simp
      have after: "parser_step (decoder (feed (feed_edges feed s xs) (fst e) (snd e))) = sync"
        using all [rule_format, of "Suc (length xs)"] by (simp add: feed_edges_snoc)
      have bounded: "unat (decode_count_bit (decoder (feed_edges feed s xs))) \<le> limit"
        using inv_run [of xs] in_sync by simp
      from stay [OF in_sync bounded after]
      have "unat (decode_count_bit (decoder (feed (feed_edges feed s xs) (fst e) (snd e))))
          = unat (decode_count_bit (decoder (feed_edges feed s xs)))
              + (if carries e then 1 else 0)"
        by simp
      with before
      show "unat (decode_count_bit (decoder (feed_edges feed s (xs @ [e]))))
          = unat (decode_count_bit (decoder s)) + length (filter carries (xs @ [e]))"
        by (simp add: feed_edges_snoc)
    qed
  qed
  have part2: "(\<forall>k \<le> length es. parser_step (decoder (feed_edges feed s (take k es))) = sync)
      \<longrightarrow> unat (decode_count_bit (decoder (feed_edges feed s es)))
            = unat (decode_count_bit (decoder s)) + length (filter carries es)
        \<and> unat (decode_count_bit (decoder s)) + length (filter carries es) \<le> limit"
  proof
    assume all: "\<forall>k \<le> length es.
      parser_step (decoder (feed_edges feed s (take k es))) = sync"
    then have eq: "unat (decode_count_bit (decoder (feed_edges feed s es)))
            = unat (decode_count_bit (decoder s)) + length (filter carries es)"
      using count [of es] by blast
    have "parser_step (decoder (feed_edges feed s es)) = sync"
      using all [rule_format, of "length es"] by simp
    then have "unat (decode_count_bit (decoder (feed_edges feed s es))) \<le> limit"
      using inv_run [of es] by simp
    with eq show "unat (decode_count_bit (decoder (feed_edges feed s es)))
            = unat (decode_count_bit (decoder s)) + length (filter carries es)
        \<and> unat (decode_count_bit (decoder s)) + length (filter carries es) \<le> limit"
      by simp
  qed
  have part3: "\<forall>k < length es.
      let a = feed_edges feed s (take k es); b = feed_edges feed s (take (Suc k) es)
      in parser_step (decoder a) = sync \<and> parser_step (decoder b) \<noteq> sync
           \<longrightarrow> parser_step (decoder b) = reset
                 \<or> (\<exists>bit_value. found (subghz_protocol_blocks_add_bit (decoder a) bit_value))"
    using leave by (simp add: Let_def feed_edges_take_Suc)
  show ?thesis
    unfolding sync_search_bounded_def using part1 part2 part3 by blast
qed

lemma ford_sync_bounded:
  assumes "parser_step (decoder s) = FordDecoderStepSync
        \<longrightarrow> unat (decode_count_bit (decoder s)) \<le> 32"
  shows "sync_search_bounded (tpms_protocol_decoder_ford_feed adv) FordDecoderStepSync FordDecoderStepReset 32
           (\<lambda>e. True) ford_sync_found s es"
proof (rule sync_search_from_steps [where carries = "\<lambda>e. True"])
  show "parser_step (decoder s) = FordDecoderStepSync
        \<longrightarrow> unat (decode_count_bit (decoder s)) \<le> 32"
    by (rule assms)
next
  fix t l d
  assume "parser_step (decoder t) \<noteq> FordDecoderStepSync"
    and "parser_step (decoder (tpms_protocol_decoder_ford_feed adv t l d)) = FordDecoderStepSync"
  then show "decode_count_bit (decoder (tpms_protocol_decoder_ford_feed adv t l d)) = 0"
    by (rule ford_sync_enter)
next
  fix t l d
  assume "parser_step (decoder t) = FordDecoderStepSync"
    and "unat (decode_count_bit (decoder t)) \<le> 32"
    and "parser_step (decoder (tpms_protocol_decoder_ford_feed adv t l d)) = FordDecoderStepSync"
  from ford_sync_stay [OF this]
  show "unat (decode_count_bit (decoder (tpms_protocol_decoder_ford_feed adv t l d)))
           = unat (decode_count_bit (decoder t)) + (if (\<lambda>e. True) (l, d) then 1 else 0)
       \<and> unat (decode_count_bit (decoder (tpms_protocol_decoder_ford_feed adv t l d))) \<le> 32"
    by simp
next
  fix t l d
  assume "parser_step (decoder t) = FordDecoderStepSync"
    and "parser_step (decoder (tpms_protocol_decoder_ford_feed adv t l d)) \<noteq> FordDecoderStepSync"
  then show "parser_step (decoder (tpms_protocol_decoder_ford_feed adv t l d)) = FordDecoderStepReset
       \<or> (\<exists>bit_value. ford_sync_found (subghz_protocol_blocks_add_bit (decoder t) bit_value))"
    by (rule ford_sync_leave)
qed

lemma gm_sync_bounded:
  assumes "parser_step (decoder s) = GMDecoderStepPreamble
        \<longrightarrow> unat (decode_count_bit (decoder s)) \<le> 32"
  shows "sync_search_bounded (tpms_protocol_decoder_gm_feed adv) GMDecoderStepPreamble GMDecoderStepReset 32
           (\<lambda>e. True) gm_sync_found s es"
proof (rule sync_search_from_steps [where carries = "\<lambda>e. True"])
  show "parser_step (decoder s) = GMDecoderStepPreamble
        \<longrightarrow> unat (decode_count_bit (decoder s)) \<le> 32"
    by (rule assms)
next
  fix t l d
  assume "parser_step (decoder t) \<noteq> GMDecoderStepPreamble"
    and "parser_step (decoder (tpms_protocol_decoder_gm_feed adv t l d)) = GMDecoderStepPreamble"
  then show "decode_count_bit (decoder (tpms_protocol_decoder_gm_feed adv t l d)) = 0"
    by (rule gm_sync_enter)
next
  fix t l d
  assume "parser_step (decoder t) = GMDecoderStepPreamble"
    and "unat (decode_count_bit (decoder t)) \<le> 32"
    and "parser_step (decoder (tpms_protocol_decoder_gm_feed adv t l d)) = GMDecoderStepPreamble"
  from gm_sync_stay [OF this]
  show "unat (decode_count_bit (decoder (tpms_protocol_decoder_gm_feed adv t l d)))
           = unat (decode_count_bit (decoder t)) + (if (\<lambda>e. True) (l, d) then 1 else 0)
       \<and> unat (decode_count_bit (decoder (tpms_protocol_decoder_gm_feed adv t l d))) \<le> 32"
    by simp
next
  fix t l d
  assume "parser_step (decoder t) = GMDecoderStepPreamble"
    and "parser_step (decoder (tpms_protocol_decoder_gm_feed adv t l d)) \<noteq> GMDecoderStepPreamble"
  then show "parser_step (decoder (tpms_protocol_decoder_gm_feed adv t l d)) = GMDecoderStepReset
       \<or> (\<exists>bit_value. gm_sync_found (subghz_protocol_blocks_add_bit (decoder t) bit_value))"
    by (rule gm_sync_leave)
qed

lemma hyundai_sync_bounded:
  assumes "parser_step (decoder s) = HyundaiDecoderStepPreamble
        \<longrightarrow> unat (decode_count_bit (decoder s)) \<le> 40"
  shows "sync_search_bounded (tpms_protocol_decoder_hyundai_feed adv) HyundaiDecoderStepPreamble HyundaiDecoderStepReset 40
           (\<lambda>e. True) hyundai_sync_found s es"
proof (rule sync_search_from_steps [where carries = "\<lambda>e. True"])
  show "parser_step (decoder s) = HyundaiDecoderStepPreamble
        \<longrightarrow> unat (decode_count_bit (decoder s)) \<le> 40"
    by (rule assms)
next
  fix t l d
  assume "parser_step (decoder t) \<noteq> HyundaiDecoderStepPreamble"
    and "parser_step (decoder (tpms_protocol_decoder_hyundai_feed adv t l d)) = HyundaiDecoderStepPreamble"
  then show "decode_count_bit (decoder (tpms_protocol_decoder_hyundai_feed adv t l d)) = 0"
    by (rule hyundai_sync_enter)
next
  fix t l d
  assume "parser_step (decoder t) = HyundaiDecoderStepPreamble"
    and "unat (decode_count_bit (decoder t)) \<le> 40"
    and "parser_step (decoder (tpms_protocol_decoder_hyundai_feed adv t l d)) = HyundaiDecoderStepPreamble"
  from hyundai_sync_stay [OF this]
  show "unat (decode_count_bit (decoder (tpms_protocol_decoder_hyundai_feed adv t l d)))
           = unat (decode_count_bit (decoder t)) + (if (\<lambda>e. True) (l, d) then 1 else 0)
       \<and> unat (decode_count_bit (decoder (tpms_protocol_decoder_hyundai_feed adv t l d))) \<le> 40"
    by simp
next
  fix t l d
  assume "parser_step (decoder t) = HyundaiDecoderStepPreamble"
    and "parser_step (decoder (tpms_protocol_decoder_hyundai_feed adv t l d)) \<noteq> HyundaiDecoderStepPreamble"
  then show "parser_step (decoder (tpms_protocol_decoder_hyundai_feed adv t l d)) = HyundaiDecoderStepReset
       \<or> (\<exists>bit_value. hyundai_sync_found (subghz_protocol_blocks_add_bit (decoder t) bit_value))"
    by (rule hyundai_sync_leave)
qed

lemma nissan_sync_bounded:
  assumes "parser_step (decoder s) = NissanDecoderStepPreamble
        \<longrightarrow> unat (decode_count_bit (decoder s)) \<le> 40"
  shows "sync_search_bounded tpms_protocol_decoder_nissan_feed NissanDecoderStepPreamble NissanDecoderStepReset 40
           (\<lambda>e. \<not> fst e) nissan_sync_found s es"
proof (rule sync_search_from_steps [where carries = "\<lambda>e. \<not> fst e"])
  show "parser_step (decoder s) = NissanDecoderStepPreamble
        \<longrightarrow> unat (decode_count_bit (decoder s)) \<le> 40"
    by (rule assms)
next
  fix t l d
  assume "parser_step (decoder t) \<noteq> NissanDecoderStepPreamble"
    and "parser_step (decoder (tpms_protocol_decoder_nissan_feed t l d)) = NissanDecoderStepPreamble"
  then show "decode_count_bit (decoder (tpms_protocol_decoder_nissan_feed t l d)) = 0"
    by (rule nissan_sync_enter)
next
  fix t l d
  assume "parser_step (decoder t) = NissanDecoderStepPreamble"
    and "unat (decode_count_bit (decoder t)) \<le> 40"
    and "parser_step (decoder (tpms_protocol_decoder_nissan_feed t l d)) = NissanDecoderStepPreamble"
  from nissan_sync_stay [OF this]
  show "unat (decode_count_bit (decoder (tpms_protocol_decoder_nissan_feed t l d)))
           = unat (decode_count_bit (decoder t)) + (if (\<lambda>e. \<not> fst e) (l, d) then 1 else 0)
       \<and> unat (decode_count_bit (decoder (tpms_protocol_decoder_nissan_feed t l d))) \<le> 40"
    by simp
next
  fix t l d
  assume "parser_step (decoder t) = NissanDecoderStepPreamble"
    and "parser_step (decoder (tpms_protocol_decoder_nissan_feed t l d)) \<noteq> NissanDecoderStepPreamble"
  then show "parser_step (decoder (tpms_protocol_decoder_nissan_feed t l d)) = NissanDecoderStepReset
       \<or> (\<exists>bit_value. nissan_sync_found (subghz_protocol_blocks_add_bit (decoder t) bit_value))"
    by (rule nissan_sync_leave)
qed

lemma toyota_sync_bounded:
  assumes "parser_step (decoder s) = ToyotaDecoderStepSync
        \<longrightarrow> unat (decode_count_bit (decoder s)) \<le> 24"
  shows "sync_search_bounded tpms_protocol_decoder_toyota_feed ToyotaDecoderStepSync ToyotaDecoderStepReset 24
           (\<lambda>e. True) toyota_sync_found s es"
proof (rule sync_search_from_steps [where carries = "\<lambda>e. True"])
  show "parser_step (decoder s) = ToyotaDecoderStepSync
        \<longrightarrow> unat (decode_count_bit (decoder s)) \<le> 24"
    by (rule assms)
next
  fix t l d
  assume "parser_step (decoder t) \<noteq> ToyotaDecoderStepSync"
    and "parser_step (decoder (tpms_protocol_decoder_toyota_feed t l d)) = ToyotaDecoderStepSync"
  then show "decode_count_bit (decoder (tpms_protocol_decoder_toyota_feed t l d)) = 0"
    by (rule toyota_sync_enter)
next
  fix t l d
  assume "parser_step (decoder t) = ToyotaDecoderStepSync"
    and "unat (decode_count_bit (decoder t)) \<le> 24"
    and "parser_step (decoder (tpms_protocol_decoder_toyota_feed t l d)) = ToyotaDecoderStepSync"
  from toyota_sync_stay [OF this]
  show "unat (decode_count_bit (decoder (tpms_protocol_decoder_toyota_feed t l d)))
           = unat (decode_count_bit (decoder t)) + (if (\<lambda>e. True) (l, d) then 1 else 0)
       \<and> unat (decode_count_bit (decoder (tpms_protocol_decoder_toyota_feed t l d))) \<le> 24"
    by simp
next
  fix t l d
  assume "parser_step (decoder t) = ToyotaDecoderStepSync"
    and "parser_step (decoder (tpms_protocol_decoder_toyota_feed t l d)) \<noteq> ToyotaDecoderStepSync"
  then show "parser_step (decoder (tpms_protocol_decoder_toyota_feed t l d)) = ToyotaDecoderStepReset
       \<or> (\<exists>bit_value. toyota_sync_found (subghz_protocol_blocks_add_bit (decoder t) bit_value))"
    by (rule toyota_sync_leave)
qed

lemma ford_noise_run:
  "parser_step (decoder (feed_edges (tpms_protocol_decoder_ford_feed manchester_two_phase)
      ford_searching (take 32 ford_noise))) = FordDecoderStepSync
   \<and> decode_count_bit (decoder
        (feed_edges (tpms_protocol_decoder_ford_feed manchester_two_phase)
           ford_searching (take 32 ford_noise))) = 32
   \<and> parser_step (decoder (feed_edges (tpms_protocol_decoder_ford_feed manchester_two_phase)
      ford_searching ford_noise)) = FordDecoderStepReset"
  by code_simp

text \<open>
  C8. For every decoder, along every stream of edges fed from a state in which the
  sync search, if it is under way, holds no more bits than the overflow ceiling
  (32 for Ford and GM, 40 for Hyundai and Nissan, 24 for Toyota): the bit count never
  exceeds the ceiling during the search; the search gains one bit with every edge
  that carries one (every edge for the Manchester decoders, every falling edge for
  Nissan), so it cannot last for more than the ceiling of them; and the call that
  ends the search moves to the initial step unless the pattern was found. The
  Manchester recoverer is arbitrary.
\<close>

theorem sync_search_stops_at_ceiling:
  "((parser_step (decoder ford) = FordDecoderStepSync
        \<longrightarrow> unat (decode_count_bit (decoder ford)) \<le> 32)
      \<longrightarrow> sync_search_bounded (tpms_protocol_decoder_ford_feed adv) FordDecoderStepSync
            FordDecoderStepReset 32 (\<lambda>e. True) ford_sync_found ford ford_edges)
   \<and> ((parser_step (decoder gm) = GMDecoderStepPreamble
        \<longrightarrow> unat (decode_count_bit (decoder gm)) \<le> 32)
      \<longrightarrow> sync_search_bounded (tpms_protocol_decoder_gm_feed adv) GMDecoderStepPreamble
            GMDecoderStepReset 32 (\<lambda>e. True) gm_sync_found gm gm_edges)
   \<and> ((parser_step (decoder hyundai) = HyundaiDecoderStepPreamble
        \<longrightarrow> unat (decode_count_bit (decoder hyundai)) \<le> 40)
      \<longrightarrow> sync_search_bounded (tpms_protocol_decoder_hyundai_feed adv)
            HyundaiDecoderStepPreamble HyundaiDecoderStepReset 40 (\<lambda>e. True)
            hyundai_sync_found hyundai hyundai_edges)
   \<and> ((parser_step (decoder nissan) = NissanDecoderStepPreamble
        \<longrightarrow> unat (decode_count_bit (decoder nissan)) \<le> 40)
      \<longrightarrow> sync_search_bounded tpms_protocol_decoder_nissan_feed NissanDecoderStepPreamble
            NissanDecoderStepReset 40 (\<lambda>e. \<not> fst e) nissan_sync_found nissan nissan_edges)
   \<and> ((parser_step (decoder toyota) = ToyotaDecoderStepSync
        \<longrightarrow> unat (decode_count_bit (decoder toyota)) \<le> 24)
      \<longrightarrow> sync_search_bounded tpms_protocol_decoder_toyota_feed ToyotaDecoderStepSync
            ToyotaDecoderStepReset 24 (\<lambda>e. True) toyota_sync_found toyota toyota_edges)"
  using ford_sync_bounded [of ford adv ford_edges] gm_sync_bounded [of gm adv gm_edges]
    hyundai_sync_bounded [of hyundai adv hyundai_edges] nissan_sync_bounded [of nissan nissan_edges]
    toyota_sync_bounded [of toyota toyota_edges]
  by blast

text \<open>
  The Ford decoder that has just started the sync search, fed 33 high edges: it
  holds 32 bits after 32 of them and is in the initial step after the 33rd; the
  pattern was not found.
\<close>

theorem sync_search_stops_at_ceiling_witness:
  "parser_step (decoder ford_searching) = FordDecoderStepSync
   \<and> unat (decode_count_bit (decoder ford_searching)) \<le> 32
   \<and> unat (decode_count_bit (decoder
        (feed_edges (tpms_protocol_decoder_ford_feed manchester_two_phase)
           ford_searching (take 32 ford_noise)))) \<le> 32
   \<and> parser_step (decoder (feed_edges (tpms_protocol_decoder_ford_feed manchester_two_phase)
        ford_searching (take 32 ford_noise))) = FordDecoderStepSync
   \<and> parser_step (decoder (feed_edges (tpms_protocol_decoder_ford_feed manchester_two_phase)
        ford_searching (take 33 ford_noise))) = FordDecoderStepReset"
proof -
  have start: "parser_step (decoder ford_searching) = FordDecoderStepSync"
    "unat (decode_count_bit (decoder ford_searching)) \<le> 32"
    by (simp_all add: ford_searching_def ford_power_on_def)
  have len: "32 \<le> length ford_noise" "take 33 ford_noise = ford_noise"
    by (simp_all add: ford_noise_def level_edges_def)
  from sync_search_stops_at_ceiling [where ford = ford_searching and ford_edges = ford_noise
      and adv = manchester_two_phase] start
  have "sync_search_bounded (tpms_protocol_decoder_ford_feed manchester_two_phase)
      FordDecoderStepSync FordDecoderStepReset 32 (\<lambda>e. True) ford_sync_found
      ford_searching ford_noise"
    by blast
  note bounded = this [unfolded sync_search_bounded_def Let_def, THEN conjunct1, rule_format,
      OF len(1)]
  have "unat (decode_count_bit (decoder
        (feed_edges (tpms_protocol_decoder_ford_feed manchester_two_phase)
           ford_searching (take 32 ford_noise)))) \<le> 32"
    using bounded ford_noise_run by blast
  then show ?thesis
    using start ford_noise_run unfolding len(2) by blast
qed

end
